theory Spec2Isabelle
  imports Main "HOL-Library.Word" "HOL-Library.Sublist"
begin

section \<open>The TinyG2 controller: dispatch loop and command dispatcher\<close>

text \<open>
  A shallow embedding of \<^verbatim>\<open>src/TinyG2/controller.cpp\<close>. The controller singleton
  \<^verbatim>\<open>cs\<close> and \<^verbatim>\<open>cfg.comm_mode\<close> are fields of a state record; everything the
  file calls but does not define (planner, canonical machine, parsers, transport, LED,
  timer) acts on an abstract world \<open>'w\<close> and is a field of an environment record, as are
  the constants of the headers. The model appends to a trace one event for every
  collaborator call and one for every \<^verbatim>\<open>DISPATCH\<close> line that ran, so that statements
  about what is invoked, in which order and with which arguments can be made.
\<close>

subsection \<open>Status codes, modes and states\<close>

datatype stat_t = STAT_OK | STAT_EAGAIN | STAT_NOOP | STAT_OTHER nat

datatype cmCommMode = TEXT_MODE | JSON_MODE | OTHER_MODE

datatype cmControllerState =
    CONTROLLER_NOT_CONNECTED
  | CONTROLLER_STARTUP
  | CONTROLLER_READY
  | CONTROLLER_OTHER

text \<open>Reading or writing past the end of one of the fixed-size character arrays.\<close>

datatype fault = BufferOverrun | BufferOverread

type_synonym buf = "char list"

abbreviation NUL :: char where
  "NUL \<equiv> CHR 0x00"

subsection \<open>The entries of the dispatch list and the trace\<close>

datatype task =
    HW_HARD_RESET_HANDLER
  | ALARM_IDLER
  | POLL_SWITCHES
  | LIMIT_SWITCH_HANDLER
  | CM_FEEDHOLD_SEQUENCING_CALLBACK
  | MP_PLAN_HOLD_CALLBACK
  | ST_MOTOR_POWER_CALLBACK
  | SR_STATUS_REPORT_CALLBACK
  | QR_QUEUE_REPORT_CALLBACK
  | CM_ARC_CALLBACK
  | CM_HOMING_CALLBACK
  | SYNC_TO_PLANNER
  | COMMAND_DISPATCH
  | NORMAL_IDLER

datatype call =
    C_read_line buf nat nat
  | C_cm_request_queue_flush
  | C_rpt_print_system_ready_message
  | C_text_response stat_t buf
  | C_help_general
  | C_text_parser buf
  | C_json_parser buf
  | C_gc_gcode_parser buf
  | C_IndicatorLed_toggle

datatype event = Called call | Dispatched task stat_t

subsection \<open>Controller state and environment\<close>

record 'w sys =
  controller_state :: cmControllerState
  linelen :: nat
  in_buf :: buf
  out_buf :: buf
  saved_buf :: buf
  led_timer :: "32 word"
  comm_mode :: cmCommMode
  world :: 'w
  trace :: "event list"

text \<open>
  The constants are defined in headers (\<^verbatim>\<open>controller.h\<close>, \<^verbatim>\<open>tinyg2.h\<close>,
  \<^verbatim>\<open>planner.h\<close>, \<^verbatim>\<open>canonical_machine.h\<close>) and not in \<^verbatim>\<open>controller.cpp\<close>, so
  they are parameters; the sizes of the three arrays are the lengths of the lists that
  model them. A query (\<^verbatim>\<open>isConnected\<close>, \<^verbatim>\<open>getValue\<close>, the two getters) reads
  the world and leaves it as it is: execution is sequential, and the world changes only
  through the calls the loop makes. Every other collaborator may change the world. The
  parsers and the response emitter are handed the contents of a buffer and leave the
  controller's buffers alone (the input buffer belongs to the line reader and the
  dispatcher); \<^verbatim>\<open>read_line\<close> returns the new contents of the buffer and of the
  cursor it was given pointers to.
\<close>

record 'w env =
  INPUT_BUFFER_LEN :: nat
  SAVED_BUFFER_LEN :: nat
  PLANNER_BUFFER_HEADROOM :: nat
  MACHINE_ALARM :: nat
  LED_ALARM_TIMER :: "32 word"
  LED_NORMAL_TIMER :: "32 word"
  hw_hard_reset_handler :: "'w \<Rightarrow> stat_t \<times> 'w"
  poll_switches :: "'w \<Rightarrow> stat_t \<times> 'w"
  cm_feedhold_sequencing_callback :: "'w \<Rightarrow> stat_t \<times> 'w"
  mp_plan_hold_callback :: "'w \<Rightarrow> stat_t \<times> 'w"
  st_motor_power_callback :: "'w \<Rightarrow> stat_t \<times> 'w"
  sr_status_report_callback :: "'w \<Rightarrow> stat_t \<times> 'w"
  qr_queue_report_callback :: "'w \<Rightarrow> stat_t \<times> 'w"
  cm_arc_callback :: "'w \<Rightarrow> stat_t \<times> 'w"
  cm_homing_callback :: "'w \<Rightarrow> stat_t \<times> 'w"
  cm_get_machine_state :: "'w \<Rightarrow> nat"
  mp_get_planner_buffers_available :: "'w \<Rightarrow> nat"
  SysTickTimer_getValue :: "'w \<Rightarrow> 32 word"
  IndicatorLed_toggle :: "'w \<Rightarrow> 'w"
  SerialUSB_isConnected :: "'w \<Rightarrow> bool"
  read_line :: "buf \<Rightarrow> nat \<Rightarrow> nat \<Rightarrow> 'w \<Rightarrow> (stat_t \<times> buf \<times> nat) \<times> 'w"
  cm_request_queue_flush :: "'w \<Rightarrow> 'w"
  rpt_print_system_ready_message :: "'w \<Rightarrow> 'w"
  text_response :: "stat_t \<Rightarrow> buf \<Rightarrow> 'w \<Rightarrow> 'w"
  help_general :: "'w \<Rightarrow> 'w"
  text_parser :: "buf \<Rightarrow> 'w \<Rightarrow> stat_t \<times> 'w"
  json_parser :: "buf \<Rightarrow> 'w \<Rightarrow> 'w"
  gc_gcode_parser :: "buf \<Rightarrow> 'w \<Rightarrow> stat_t \<times> 'w"

subsection \<open>The C library calls on character arrays\<close>

text \<open>
  An array is the list of its bytes, its size the length of the list. The string held
  by an array ends before its first NUL; an array with no NUL holds no string (reading
  it as one runs off its end).
\<close>

definition cstr :: "buf \<Rightarrow> string option" where
  "cstr b = (if NUL \<in> set b then Some (takeWhile (\<lambda>c. c \<noteq> NUL) b) else None)"

text \<open>
  \<^verbatim>\<open>strncpy(dst, src, n)\<close> writes exactly \<open>n\<close> bytes: the bytes of \<open>src\<close> before its
  first NUL, at most \<open>n\<close> of them, then NULs up to \<open>n\<close>. When the source string has \<open>n\<close>
  bytes or more, no NUL is written.
\<close>

definition strncpy :: "buf \<Rightarrow> buf \<Rightarrow> nat \<Rightarrow> fault + buf" where
  "strncpy dst src n =
     (let s = takeWhile (\<lambda>c. c \<noteq> NUL) (take n src) in
      if length dst < n then Inl BufferOverrun
      else if length s = length src \<and> length s < n then Inl BufferOverread
      else Inr (s @ replicate (n - length s) NUL @ drop n dst))"

text \<open>The ten characters that \<^verbatim>\<open>"{\"gc\":\"%s\"}\n"\<close> puts around the argument.\<close>

definition gc_prefix :: string where
  "gc_prefix = [CHR ''{'', CHR 0x22, CHR ''g'', CHR ''c'', CHR 0x22, CHR '':'', CHR 0x22]"

definition gc_suffix :: string where
  "gc_suffix = [CHR 0x22, CHR ''}'', CHR 0x0A]"

definition gc_wrap :: "string \<Rightarrow> string" where
  "gc_wrap l = gc_prefix @ l @ gc_suffix"

text \<open>
  \<^verbatim>\<open>sprintf(dst, "{\"gc\":\"%s\"}\n", src)\<close>: the wrapped string and its terminating
  NUL are written from the start of \<open>dst\<close>, however long they are.
\<close>

definition sprintf_gc :: "buf \<Rightarrow> buf \<Rightarrow> fault + buf" where
  "sprintf_gc dst src =
     (case cstr src of
        None \<Rightarrow> Inl BufferOverread
      | Some l \<Rightarrow>
          (let out = gc_wrap l @ [NUL] in
           if length dst < length out then Inl BufferOverrun
           else Inr (out @ drop (length out) dst)))"

definition toupper :: "char \<Rightarrow> char" where
  "toupper c =
     (let n = (of_char c :: nat) in
      if 97 \<le> n \<and> n \<le> 122 then char_of (n - 32) else c)"

subsection \<open>Calls of the collaborators\<close>

definition called :: "call \<Rightarrow> 'w sys \<Rightarrow> 'w sys" where
  "called c s = s\<lparr>trace := trace s @ [Called c]\<rparr>"

definition ext_task :: "('w \<Rightarrow> stat_t \<times> 'w) \<Rightarrow> 'w sys \<Rightarrow> stat_t \<times> 'w sys" where
  "ext_task f s = (case f (world s) of (r, w) \<Rightarrow> (r, s\<lparr>world := w\<rparr>))"

definition do_IndicatorLed_toggle :: "'w env \<Rightarrow> 'w sys \<Rightarrow> 'w sys" where
  "do_IndicatorLed_toggle env s =
     called C_IndicatorLed_toggle (s\<lparr>world := IndicatorLed_toggle env (world s)\<rparr>)"

definition do_cm_request_queue_flush :: "'w env \<Rightarrow> 'w sys \<Rightarrow> 'w sys" where
  "do_cm_request_queue_flush env s =
     called C_cm_request_queue_flush (s\<lparr>world := cm_request_queue_flush env (world s)\<rparr>)"

definition do_rpt_print_system_ready_message :: "'w env \<Rightarrow> 'w sys \<Rightarrow> 'w sys" where
  "do_rpt_print_system_ready_message env s =
     called C_rpt_print_system_ready_message
       (s\<lparr>world := rpt_print_system_ready_message env (world s)\<rparr>)"

definition do_text_response :: "'w env \<Rightarrow> stat_t \<Rightarrow> buf \<Rightarrow> 'w sys \<Rightarrow> 'w sys" where
  "do_text_response env st b s =
     called (C_text_response st b) (s\<lparr>world := text_response env st b (world s)\<rparr>)"

definition do_help_general :: "'w env \<Rightarrow> 'w sys \<Rightarrow> 'w sys" where
  "do_help_general env s = called C_help_general (s\<lparr>world := help_general env (world s)\<rparr>)"

definition do_text_parser :: "'w env \<Rightarrow> buf \<Rightarrow> 'w sys \<Rightarrow> stat_t \<times> 'w sys" where
  "do_text_parser env b s =
     (case text_parser env b (world s) of (r, w) \<Rightarrow> (r, called (C_text_parser b) (s\<lparr>world := w\<rparr>)))"

definition do_json_parser :: "'w env \<Rightarrow> buf \<Rightarrow> 'w sys \<Rightarrow> 'w sys" where
  "do_json_parser env b s = called (C_json_parser b) (s\<lparr>world := json_parser env b (world s)\<rparr>)"

definition do_gc_gcode_parser :: "'w env \<Rightarrow> buf \<Rightarrow> 'w sys \<Rightarrow> stat_t \<times> 'w sys" where
  "do_gc_gcode_parser env b s =
     (case gc_gcode_parser env b (world s) of
        (r, w) \<Rightarrow> (r, called (C_gc_gcode_parser b) (s\<lparr>world := w\<rparr>)))"

text \<open>
  \<^verbatim>\<open>read_line(cs.in_buf, &cs.linelen, sizeof(cs.in_buf))\<close>: the event records the
  buffer, the cursor and the size as they are passed in.
\<close>

definition do_read_line :: "'w env \<Rightarrow> 'w sys \<Rightarrow> stat_t \<times> 'w sys" where
  "do_read_line env s =
     (case read_line env (in_buf s) (linelen s) (length (in_buf s)) (world s) of
        ((r, b, n), w) \<Rightarrow>
          (r, called (C_read_line (in_buf s) (linelen s) (length (in_buf s)))
                (s\<lparr>in_buf := b, linelen := n, world := w\<rparr>)))"

subsection \<open>The command dispatcher\<close>

text \<open>
  Lines 201 to 239 of the source: save the line, clear the cursor, and select the
  handler by the first character. \<^verbatim>\<open>SAVED_BUFFER_LEN-1\<close> and
  \<^verbatim>\<open>INPUT_BUFFER_LEN -8\<close> are computed in \<^verbatim>\<open>int\<close> and converted to
  \<^verbatim>\<open>size_t\<close>: a negative value becomes a count no array holds.
\<close>

definition execute_line :: "'w env \<Rightarrow> 'w sys \<Rightarrow> fault + (stat_t \<times> 'w sys)" where
  "execute_line env s =
     (if SAVED_BUFFER_LEN env = 0 then Inl BufferOverrun
      else case strncpy (saved_buf s) (in_buf s) (SAVED_BUFFER_LEN env - 1) of
        Inl f \<Rightarrow> Inl f
      | Inr sv \<Rightarrow>
         (let s1 = s\<lparr>saved_buf := sv, linelen := 0\<rparr> in
          case in_buf s1 of
            [] \<Rightarrow> Inl BufferOverread
          | c0 # rest \<Rightarrow>
             (let c = toupper c0 in
              if c = NUL then
                Inr (STAT_OK,
                     if comm_mode s1 \<noteq> JSON_MODE
                     then do_text_response env STAT_OK (saved_buf s1) s1 else s1)
              else if c = CHR ''H'' then
                (let s2 = do_help_general env (s1\<lparr>comm_mode := TEXT_MODE\<rparr>) in
                 Inr (STAT_OK, do_text_response env STAT_OK (in_buf s2) s2))
              else if c = CHR ''$'' \<or> c = CHR ''?'' then
                (case do_text_parser env (in_buf s1) (s1\<lparr>comm_mode := TEXT_MODE\<rparr>) of
                   (st, s2) \<Rightarrow> Inr (STAT_OK, do_text_response env st (saved_buf s2) s2))
              else if c = CHR ''{'' then
                Inr (STAT_OK, do_json_parser env (in_buf s1) (s1\<lparr>comm_mode := JSON_MODE\<rparr>))
              else if comm_mode s1 = JSON_MODE then
                (if INPUT_BUFFER_LEN env < 8 then Inl BufferOverrun
                 else case strncpy (out_buf s1) (in_buf s1) (INPUT_BUFFER_LEN env - 8) of
                   Inl f \<Rightarrow> Inl f
                 | Inr ob \<Rightarrow>
                    (case sprintf_gc (in_buf s1) ob of
                       Inl f \<Rightarrow> Inl f
                     | Inr ib \<Rightarrow>
                         Inr (STAT_OK,
                              do_json_parser env ib (s1\<lparr>out_buf := ob, in_buf := ib\<rparr>))))
              else
                (case do_gc_gcode_parser env (in_buf s1) s1 of
                   (st, s2) \<Rightarrow> Inr (STAT_OK, do_text_response env st (saved_buf s2) s2)))))"

definition command_dispatch :: "'w env \<Rightarrow> 'w sys \<Rightarrow> fault + (stat_t \<times> 'w sys)" where
  "command_dispatch env s0 =
     (let s = (if SerialUSB_isConnected env (world s0) = False
               then s0\<lparr>controller_state := CONTROLLER_NOT_CONNECTED\<rparr> else s0) in
      if controller_state s = CONTROLLER_READY then
        (case do_read_line env s of
           (r, s1) \<Rightarrow> if r \<noteq> STAT_OK then Inr (STAT_OK, s1) else execute_line env s1)
      else if controller_state s = CONTROLLER_NOT_CONNECTED then
        (if SerialUSB_isConnected env (world s) = False then Inr (STAT_OK, s)
         else execute_line env
                ((do_rpt_print_system_ready_message env (do_cm_request_queue_flush env s))
                   \<lparr>controller_state := CONTROLLER_STARTUP\<rparr>))
      else if controller_state s = CONTROLLER_STARTUP then
        execute_line env (s\<lparr>controller_state := CONTROLLER_READY\<rparr>)
      else Inr (STAT_OK, s))"

subsection \<open>Local utilities\<close>

definition alarm_idler :: "'w env \<Rightarrow> 'w sys \<Rightarrow> stat_t \<times> 'w sys" where
  "alarm_idler env s =
     (if cm_get_machine_state env (world s) \<noteq> MACHINE_ALARM env then (STAT_OK, s)
      else
        (STAT_EAGAIN,
         if led_timer s < SysTickTimer_getValue env (world s)
         then do_IndicatorLed_toggle env
                (s\<lparr>led_timer := SysTickTimer_getValue env (world s) + LED_ALARM_TIMER env\<rparr>)
         else s))"

definition normal_idler :: "'w env \<Rightarrow> 'w sys \<Rightarrow> stat_t \<times> 'w sys" where
  "normal_idler env s =
     (STAT_OK,
      if led_timer s < SysTickTimer_getValue env (world s)
      then do_IndicatorLed_toggle env
             (s\<lparr>led_timer := SysTickTimer_getValue env (world s) + LED_NORMAL_TIMER env\<rparr>)
      else s)"

definition sync_to_planner :: "'w env \<Rightarrow> 'w sys \<Rightarrow> stat_t \<times> 'w sys" where
  "sync_to_planner env s =
     (if mp_get_planner_buffers_available env (world s) < PLANNER_BUFFER_HEADROOM env
      then (STAT_EAGAIN, s) else (STAT_OK, s))"

definition limit_switch_handler :: "'w sys \<Rightarrow> stat_t \<times> 'w sys" where
  "limit_switch_handler s = (STAT_OK, s)"

subsection \<open>The dispatch loop\<close>

text \<open>The \<^verbatim>\<open>DISPATCH\<close> lines of \<^verbatim>\<open>_controller_HSM\<close>, top to bottom.\<close>

definition dispatch_table :: "task list" where
  "dispatch_table =
     [HW_HARD_RESET_HANDLER, ALARM_IDLER, POLL_SWITCHES, LIMIT_SWITCH_HANDLER,
      CM_FEEDHOLD_SEQUENCING_CALLBACK, MP_PLAN_HOLD_CALLBACK,
      ST_MOTOR_POWER_CALLBACK, SR_STATUS_REPORT_CALLBACK, QR_QUEUE_REPORT_CALLBACK,
      CM_ARC_CALLBACK, CM_HOMING_CALLBACK,
      SYNC_TO_PLANNER, COMMAND_DISPATCH, NORMAL_IDLER]"

fun run_task :: "'w env \<Rightarrow> task \<Rightarrow> 'w sys \<Rightarrow> fault + (stat_t \<times> 'w sys)" where
  "run_task env HW_HARD_RESET_HANDLER s = Inr (ext_task (hw_hard_reset_handler env) s)"
| "run_task env ALARM_IDLER s = Inr (alarm_idler env s)"
| "run_task env POLL_SWITCHES s = Inr (ext_task (poll_switches env) s)"
| "run_task env LIMIT_SWITCH_HANDLER s = Inr (limit_switch_handler s)"
| "run_task env CM_FEEDHOLD_SEQUENCING_CALLBACK s =
     Inr (ext_task (cm_feedhold_sequencing_callback env) s)"
| "run_task env MP_PLAN_HOLD_CALLBACK s = Inr (ext_task (mp_plan_hold_callback env) s)"
| "run_task env ST_MOTOR_POWER_CALLBACK s = Inr (ext_task (st_motor_power_callback env) s)"
| "run_task env SR_STATUS_REPORT_CALLBACK s = Inr (ext_task (sr_status_report_callback env) s)"
| "run_task env QR_QUEUE_REPORT_CALLBACK s = Inr (ext_task (qr_queue_report_callback env) s)"
| "run_task env CM_ARC_CALLBACK s = Inr (ext_task (cm_arc_callback env) s)"
| "run_task env CM_HOMING_CALLBACK s = Inr (ext_task (cm_homing_callback env) s)"
| "run_task env SYNC_TO_PLANNER s = Inr (sync_to_planner env s)"
| "run_task env COMMAND_DISPATCH s = command_dispatch env s"
| "run_task env NORMAL_IDLER s = Inr (normal_idler env s)"

text \<open>
  \<^verbatim>\<open>#define DISPATCH(func) if (func == STAT_EAGAIN) return;\<close> applied down a list of
  entries: call the entry, leave on \<^verbatim>\<open>STAT_EAGAIN\<close>, go on to the next entry on any
  other result.
\<close>

fun DISPATCH :: "'w env \<Rightarrow> task list \<Rightarrow> 'w sys \<Rightarrow> fault + 'w sys" where
  "DISPATCH env [] s = Inr s"
| "DISPATCH env (t # ts) s =
     (case run_task env t s of
        Inl f \<Rightarrow> Inl f
      | Inr (r, s1) \<Rightarrow>
          (let s2 = s1\<lparr>trace := trace s1 @ [Dispatched t r]\<rparr> in
           if r = STAT_EAGAIN then Inr s2 else DISPATCH env ts s2))"

definition controller_HSM :: "'w env \<Rightarrow> 'w sys \<Rightarrow> fault + 'w sys" where
  "controller_HSM env s = DISPATCH env dispatch_table s"

text \<open>
  \<^verbatim>\<open>controller_run\<close> is \<^verbatim>\<open>while (true) { _controller_HSM(); }\<close>: it never
  returns. The first \<open>n\<close> iterations of it:
\<close>

fun controller_run :: "nat \<Rightarrow> 'w env \<Rightarrow> 'w sys \<Rightarrow> fault + 'w sys" where
  "controller_run 0 env s = Inr s"
| "controller_run (Suc n) env s =
     (case controller_HSM env s of Inl f \<Rightarrow> Inl f | Inr s1 \<Rightarrow> controller_run n env s1)"

text \<open>The \<^verbatim>\<open>DISPATCH\<close> lines that ran, with what each returned, read off a trace.\<close>

fun dispatched :: "event list \<Rightarrow> (task \<times> stat_t) list" where
  "dispatched [] = []"
| "dispatched (Dispatched t r # es) = (t, r) # dispatched es"
| "dispatched (Called c # es) = dispatched es"

fun calls :: "event list \<Rightarrow> call list" where
  "calls [] = []"
| "calls (Called c # es) = c # calls es"
| "calls (Dispatched t r # es) = calls es"

text \<open>
  One tick against a dispatch list: the entries that ran are the first entries of the
  list, in order, and the tick goes past an entry only when it did not return
  \<^verbatim>\<open>STAT_EAGAIN\<close>.
\<close>

fun tick_shape :: "task list \<Rightarrow> (task \<times> stat_t) list \<Rightarrow> bool" where
  "tick_shape [] d = (d = [])"
| "tick_shape (t # ts) [] = False"
| "tick_shape (t # ts) ((t1, r) # d) =
     (t1 = t \<and> (if r = STAT_EAGAIN then d = [] else tick_shape ts d))"

text \<open>The trace of the second state extends that of the first by collaborator calls only.\<close>

definition grows :: "'w sys \<Rightarrow> 'w sys \<Rightarrow> bool" where
  "grows s s1 = (\<exists>tr. trace s1 = trace s @ tr \<and> dispatched tr = [])"

text \<open>
  The numbered steps of the ordering in section 4.1 of the specification: step 5 is
  ``feedhold sequencing / hold-planning continuations'' and step 7 is ``status/queue
  reporting'', each of which stands for two lines of the source.
\<close>

fun spec_step :: "task \<Rightarrow> nat" where
  "spec_step HW_HARD_RESET_HANDLER = 1"
| "spec_step ALARM_IDLER = 2"
| "spec_step POLL_SWITCHES = 3"
| "spec_step LIMIT_SWITCH_HANDLER = 4"
| "spec_step CM_FEEDHOLD_SEQUENCING_CALLBACK = 5"
| "spec_step MP_PLAN_HOLD_CALLBACK = 5"
| "spec_step ST_MOTOR_POWER_CALLBACK = 6"
| "spec_step SR_STATUS_REPORT_CALLBACK = 7"
| "spec_step QR_QUEUE_REPORT_CALLBACK = 7"
| "spec_step CM_ARC_CALLBACK = 8"
| "spec_step CM_HOMING_CALLBACK = 9"
| "spec_step SYNC_TO_PLANNER = 10"
| "spec_step COMMAND_DISPATCH = 11"
| "spec_step NORMAL_IDLER = 12"

subsection \<open>A test bench\<close>

text \<open>
  A small concrete world and environment on which the model is run: a transport with a
  queue of complete lines and the characters of a line still incomplete, a machine
  state, a planner with a number of free buffers, and a clock. The buffers are
  24, 32 and 12 bytes long.
\<close>

record bench =
  bench_usb :: bool
  bench_machine :: nat
  bench_free :: nat
  bench_now :: "32 word"
  bench_rx :: "string list"
  bench_partial :: string

definition bench_read_line ::
  "buf \<Rightarrow> nat \<Rightarrow> nat \<Rightarrow> bench \<Rightarrow> (stat_t \<times> buf \<times> nat) \<times> bench" where
  "bench_read_line b n cap w =
     (case bench_rx w of
        [] \<Rightarrow>
          ((STAT_EAGAIN,
            take cap (bench_partial w @ drop (length (bench_partial w)) b),
            length (bench_partial w)), w)
      | l # ls \<Rightarrow>
          ((STAT_OK, take cap (l @ replicate cap NUL), length l), w\<lparr>bench_rx := ls\<rparr>))"

definition bench_env :: "bench env" where
  "bench_env =
     \<lparr>INPUT_BUFFER_LEN = 24, SAVED_BUFFER_LEN = 12, PLANNER_BUFFER_HEADROOM = 4,
      MACHINE_ALARM = 2, LED_ALARM_TIMER = 100, LED_NORMAL_TIMER = 500,
      hw_hard_reset_handler = (\<lambda>w. (STAT_OK, w)),
      poll_switches = (\<lambda>w. (STAT_OK, w)),
      cm_feedhold_sequencing_callback = (\<lambda>w. (STAT_NOOP, w)),
      mp_plan_hold_callback = (\<lambda>w. (STAT_NOOP, w)),
      st_motor_power_callback = (\<lambda>w. (STAT_OK, w)),
      sr_status_report_callback = (\<lambda>w. (STAT_OK, w)),
      qr_queue_report_callback = (\<lambda>w. (STAT_OK, w)),
      cm_arc_callback = (\<lambda>w. (STAT_NOOP, w)),
      cm_homing_callback = (\<lambda>w. (STAT_NOOP, w)),
      cm_get_machine_state = bench_machine,
      mp_get_planner_buffers_available = bench_free,
      SysTickTimer_getValue = bench_now,
      IndicatorLed_toggle = (\<lambda>w. w),
      SerialUSB_isConnected = bench_usb,
      read_line = bench_read_line,
      cm_request_queue_flush = (\<lambda>w. w),
      rpt_print_system_ready_message = (\<lambda>w. w),
      text_response = (\<lambda>st b w. w),
      help_general = (\<lambda>w. w),
      text_parser = (\<lambda>b w. (STAT_OK, w)),
      json_parser = (\<lambda>b w. w),
      gc_gcode_parser = (\<lambda>b w. (STAT_OK, w))\<rparr>"

definition bench_sys :: "cmControllerState \<Rightarrow> cmCommMode \<Rightarrow> bench \<Rightarrow> bench sys" where
  "bench_sys st m w =
     \<lparr>controller_state = st, linelen = 0, in_buf = replicate 24 NUL,
      out_buf = replicate 32 NUL, saved_buf = replicate 12 NUL, led_timer = 0,
      comm_mode = m, world = w, trace = []\<rparr>"

definition bench_idle :: bench where
  "bench_idle =
     \<lparr>bench_usb = True, bench_machine = 1, bench_free = 8, bench_now = 0,
      bench_rx = [], bench_partial = []\<rparr>"

definition bench_busy :: bench where
  "bench_busy = bench_idle\<lparr>bench_free := 2\<rparr>"

definition bench_alarm :: bench where
  "bench_alarm = bench_idle\<lparr>bench_machine := 2, bench_now := 5\<rparr>"

definition bench_unplugged :: bench where
  "bench_unplugged = bench_idle\<lparr>bench_usb := False\<rparr>"

definition bench_line :: "string \<Rightarrow> bench" where
  "bench_line l = bench_idle\<lparr>bench_rx := [l]\<rparr>"

definition bench_gcode :: "cmCommMode \<Rightarrow> bench sys" where
  "bench_gcode m = bench_sys CONTROLLER_READY m (bench_line ''g1f400x100'')"

definition bench_empty_lines :: "bench sys" where
  "bench_empty_lines = bench_sys CONTROLLER_READY TEXT_MODE (bench_idle\<lparr>bench_rx := [[], []]\<rparr>)"

definition bench_empty_lines_after :: "bench sys" where
  "bench_empty_lines_after =
     (bench_sys CONTROLLER_READY TEXT_MODE (bench_idle\<lparr>bench_rx := [[]]\<rparr>))
       \<lparr>trace := [Called (C_read_line (replicate 24 NUL) 0 24),
                  Called (C_text_response STAT_OK (replicate 12 NUL))]\<rparr>"

definition bench_stale :: "bench sys" where
  "bench_stale =
     (bench_sys CONTROLLER_STARTUP TEXT_MODE bench_idle)\<lparr>in_buf := ''g0x1'' @ replicate 20 NUL\<rparr>"

definition bench_stale_after :: "bench sys" where
  "bench_stale_after =
     bench_stale
       \<lparr>controller_state := CONTROLLER_READY, saved_buf := ''g0x1'' @ replicate 8 NUL,
        trace := [Called (C_gc_gcode_parser (''g0x1'' @ replicate 20 NUL)),
                  Called (C_text_response STAT_OK (''g0x1'' @ replicate 8 NUL))]\<rparr>"

section \<open>Lemmas\<close>

subsection \<open>Traces\<close>

lemma dispatched_append: "dispatched (a @ b) = dispatched a @ dispatched b"
  by (induction a rule: dispatched.induct) simp_all

lemma calls_append: "calls (a @ b) = calls a @ calls b"
  by (induction a rule: calls.induct) simp_all

lemma trace_called: "trace (called c s) = trace s @ [Called c]"
  by (simp add: called_def)

lemma trace_ext_task: "trace (snd (ext_task f s)) = trace s"
  by (simp add: ext_task_def case_prod_beta)

lemma trace_toggle: "trace (do_IndicatorLed_toggle env s) = trace s @ [Called C_IndicatorLed_toggle]"
  by (simp add: do_IndicatorLed_toggle_def trace_called)

lemma trace_flush:
  "trace (do_cm_request_queue_flush env s) = trace s @ [Called C_cm_request_queue_flush]"
  by (simp add: do_cm_request_queue_flush_def trace_called)

lemma trace_ready:
  "trace (do_rpt_print_system_ready_message env s) =
     trace s @ [Called C_rpt_print_system_ready_message]"
  by (simp add: do_rpt_print_system_ready_message_def trace_called)

lemma trace_text_response:
  "trace (do_text_response env st b s) = trace s @ [Called (C_text_response st b)]"
  by (simp add: do_text_response_def trace_called)

lemma trace_help: "trace (do_help_general env s) = trace s @ [Called C_help_general]"
  by (simp add: do_help_general_def trace_called)

lemma trace_json: "trace (do_json_parser env b s) = trace s @ [Called (C_json_parser b)]"
  by (simp add: do_json_parser_def trace_called)

lemma trace_text_parser:
  "trace (snd (do_text_parser env b s)) = trace s @ [Called (C_text_parser b)]"
  by (simp add: do_text_parser_def trace_called case_prod_beta)

lemma trace_gcode:
  "trace (snd (do_gc_gcode_parser env b s)) = trace s @ [Called (C_gc_gcode_parser b)]"
  by (simp add: do_gc_gcode_parser_def trace_called case_prod_beta)

lemma trace_read_line:
  "trace (snd (do_read_line env s)) =
     trace s @ [Called (C_read_line (in_buf s) (linelen s) (length (in_buf s)))]"
  by (simp add: do_read_line_def trace_called case_prod_beta)

lemmas trace_simps = trace_called trace_ext_task trace_toggle trace_flush trace_ready
  trace_text_response trace_help trace_json trace_text_parser trace_gcode trace_read_line

lemma grows_execute_line:
  assumes "execute_line env s = Inr (r, s1)"
  shows "grows s s1"
  using assms
  unfolding execute_line_def Let_def grows_def
  by (auto simp: case_prod_beta trace_simps split: if_splits sum.splits list.splits)

lemma grows_command_dispatch:
  assumes "command_dispatch env s = Inr (r, s1)"
  shows "grows s s1"
proof -
  have a: "\<And>s0. execute_line env s0 = Inr (r, s1) \<Longrightarrow> \<exists>tr. trace s1 = trace s0 @ tr \<and> dispatched tr = []"
    using grows_execute_line by (simp add: grows_def)
  show ?thesis
    using assms
    unfolding command_dispatch_def Let_def grows_def
    by (auto simp: case_prod_beta trace_simps dispatched_append split: if_splits dest!: a)
qed

lemma grows_run_task:
  assumes "run_task env t s = Inr (r, s1)"
  shows "grows s s1"
proof (cases t)
  case COMMAND_DISPATCH
  then show ?thesis using assms grows_command_dispatch by simp
next
  case ALARM_IDLER
  then show ?thesis using assms
    by (auto simp: grows_def alarm_idler_def trace_simps split: if_splits)
next
  case NORMAL_IDLER
  then show ?thesis using assms
    by (auto simp: grows_def normal_idler_def trace_simps split: if_splits)
qed (use assms in \<open>auto simp: grows_def ext_task_def limit_switch_handler_def
       sync_to_planner_def case_prod_beta split: if_splits\<close>)

subsection \<open>The shape of a tick\<close>

lemma DISPATCH_tick_shape:
  "DISPATCH env ts s = Inr s' \<Longrightarrow>
     \<exists>tr. trace s' = trace s @ tr \<and> tick_shape ts (dispatched tr)"
proof (induction ts arbitrary: s)
  case Nil
  then show ?case by simp
next
  case (Cons t ts)
  from Cons.prems obtain r s1 where rt: "run_task env t s = Inr (r, s1)"
    by (auto split: sum.splits)
  from grows_run_task [OF rt] obtain tr0 where tr0: "trace s1 = trace s @ tr0" "dispatched tr0 = []"
    by (auto simp: grows_def)
  let ?s2 = "s1\<lparr>trace := trace s1 @ [Dispatched t r]\<rparr>"
  show ?case
  proof (cases "r = STAT_EAGAIN")
    case True
    with Cons.prems rt have "s' = ?s2" by simp
    then have "trace s' = trace s @ (tr0 @ [Dispatched t r])" using tr0 by simp
    moreover have "tick_shape (t # ts) (dispatched (tr0 @ [Dispatched t r]))"
      using tr0 True by (simp add: dispatched_append)
    ultimately show ?thesis by blast
  next
    case False
    with Cons.prems rt have "DISPATCH env ts ?s2 = Inr s'" by simp
    from Cons.IH [OF this] obtain tr1 where
      tr1: "trace s' = trace ?s2 @ tr1" "tick_shape ts (dispatched tr1)" by blast
    have "trace s' = trace s @ (tr0 @ Dispatched t r # tr1)" using tr0 tr1 by simp
    moreover have "tick_shape (t # ts) (dispatched (tr0 @ Dispatched t r # tr1))"
      using tr0 tr1 False by (simp add: dispatched_append)
    ultimately show ?thesis by blast
  qed
qed

lemma tick_shape_prefix: "tick_shape ts d \<Longrightarrow> map fst d = take (length d) ts"
  by (induction ts d rule: tick_shape.induct) (auto split: if_splits)

lemma tick_shape_invoked_iff:
  "tick_shape ts d \<Longrightarrow> K < length ts \<Longrightarrow>
     (K < length d) = (\<forall>J<K. J < length d \<and> snd (d ! J) \<noteq> STAT_EAGAIN)"
proof (induction ts d arbitrary: K rule: tick_shape.induct)
  case (3 t ts t1 r d)
  show ?case
  proof (cases K)
    case 0
    then show ?thesis by simp
  next
    case (Suc k)
    show ?thesis
    proof (cases "r = STAT_EAGAIN")
      case True
      with "3.prems" have "d = []" by simp
      with True Suc show ?thesis by auto
    next
      case False
      with "3.prems" Suc have ts: "tick_shape ts d" "k < length ts" by simp_all
      from "3.IH" [OF False ts]
      have ih: "(k < length d) = (\<forall>J<k. J < length d \<and> snd (d ! J) \<noteq> STAT_EAGAIN)" .
      have "(\<forall>J<Suc k. J < length ((t1, r) # d) \<and> snd (((t1, r) # d) ! J) \<noteq> STAT_EAGAIN)
            = (\<forall>J<k. J < length d \<and> snd (d ! J) \<noteq> STAT_EAGAIN)"
        using False by (auto simp: less_Suc_eq_0_disj)
      with ih Suc show ?thesis by simp
    qed
  qed
qed simp_all

lemma tick_shape_blocked_last:
  "tick_shape ts d \<Longrightarrow> K < length d \<Longrightarrow> snd (d ! K) = STAT_EAGAIN \<Longrightarrow> length d = Suc K"
proof (induction ts d arbitrary: K rule: tick_shape.induct)
  case (3 t ts t1 r d)
  then show ?case by (cases K) (auto split: if_splits)
qed simp_all

lemma tick_shape_complete:
  "tick_shape ts d \<Longrightarrow> \<forall>x\<in>set d. snd x \<noteq> STAT_EAGAIN \<Longrightarrow> map fst d = ts"
  by (induction ts d rule: tick_shape.induct) (auto split: if_splits)

text \<open>
  Iteration \<open>n + 1\<close> of the loop is one call of \<^verbatim>\<open>_controller_HSM\<close> on the state the
  first \<open>n\<close> iterations left.
\<close>

lemma controller_run_Suc:
  "controller_run (Suc n) env s =
     (case controller_run n env s of Inl f \<Rightarrow> Inl f | Inr s1 \<Rightarrow> controller_HSM env s1)"
proof (induction n arbitrary: s)
  case 0
  show ?case by (simp split: sum.splits)
next
  case (Suc n)
  show ?case
  proof (cases "controller_HSM env s")
    case (Inl f)
    then show ?thesis by simp
  next
    case (Inr s1)
    then show ?thesis using Suc.IH [of s1] by simp
  qed
qed

text \<open>Within an iteration only the command dispatcher can fault.\<close>

lemma DISPATCH_fault:
  "DISPATCH env ts s = Inl f \<Longrightarrow> \<exists>s0. command_dispatch env s0 = Inl f"
proof (induction ts arbitrary: s)
  case Nil
  then show ?case by simp
next
  case (Cons t ts)
  show ?case
  proof (cases "run_task env t s")
    case (Inl g)
    with Cons.prems have "g = f" by simp
    with Inl show ?thesis by (cases t) auto
  next
    case (Inr p)
    obtain r s1 where p: "p = (r, s1)" by (cases p)
    with Inr Cons.prems have "r \<noteq> STAT_EAGAIN"
      and "DISPATCH env ts (s1\<lparr>trace := trace s1 @ [Dispatched t r]\<rparr>) = Inl f"
      by (auto simp: Let_def split: if_splits)
    then show ?thesis using Cons.IH by blast
  qed
qed

lemma controller_HSM_fault:
  "controller_HSM env s = Inl f \<Longrightarrow> \<exists>s0. command_dispatch env s0 = Inl f"
  unfolding controller_HSM_def by (rule DISPATCH_fault)

lemma DISPATCH_alarm:
  assumes "hw_hard_reset_handler env (world s) = (r, w)"
    and "cm_get_machine_state env w = MACHINE_ALARM env"
  shows "\<exists>s' tr. controller_HSM env s = Inr s' \<and> trace s' = trace s @ tr \<and>
           dispatched tr =
             (if r = STAT_EAGAIN then [(HW_HARD_RESET_HANDLER, r)]
              else [(HW_HARD_RESET_HANDLER, r), (ALARM_IDLER, STAT_EAGAIN)]) \<and>
           (calls tr = [] \<or> calls tr = [C_IndicatorLed_toggle])"
  using assms
  by (auto simp: controller_HSM_def dispatch_table_def ext_task_def alarm_idler_def
      do_IndicatorLed_toggle_def called_def Let_def)

subsection \<open>Characters and C strings\<close>

lemma of_char_0: "(of_char c :: nat) = 0 \<Longrightarrow> c = NUL"
  using of_char_eq_iff [of c NUL, where ?'a = nat] by simp

lemma toupper_NUL: "(toupper c = NUL) = (c = NUL)"
proof
  assume "toupper c = NUL"
  then have z: "(of_char (toupper c) :: nat) = 0" by simp
  show "c = NUL"
  proof (cases "97 \<le> (of_char c :: nat) \<and> (of_char c :: nat) \<le> 122")
    case True
    with z have "((of_char c :: nat) - 32) mod 256 = 0" by (simp add: toupper_def Let_def)
    with True show ?thesis by presburger
  next
    case False
    with z show ?thesis by (auto simp: toupper_def Let_def intro: of_char_0)
  qed
next
  assume "c = NUL" then show "toupper c = NUL" by (simp add: toupper_def)
qed

lemmas do_defs = called_def do_text_response_def do_help_general_def
  do_text_parser_def do_json_parser_def do_gc_gcode_parser_def do_IndicatorLed_toggle_def
  do_cm_request_queue_flush_def do_rpt_print_system_ready_message_def do_read_line_def

lemma cstr_split:
  assumes "cstr b = Some l"
  shows "\<exists>rest. b = l @ NUL # rest \<and> NUL \<notin> set l"
proof -
  let ?P = "\<lambda>c. c \<noteq> NUL"
  from assms have nul: "NUL \<in> set b" and l: "l = takeWhile ?P b"
    by (auto simp: cstr_def split: if_splits)
  from nul have ne: "dropWhile ?P b \<noteq> []" by (auto simp: dropWhile_eq_Nil_conv)
  then have "\<not> ?P (hd (dropWhile ?P b))" by (rule hd_dropWhile)
  with ne obtain rest where d: "dropWhile ?P b = NUL # rest"
    by (cases "dropWhile ?P b") auto
  have "b = takeWhile ?P b @ dropWhile ?P b" by simp
  with d l have "b = l @ NUL # rest" by simp
  moreover have "NUL \<notin> set l" using l by (auto dest: set_takeWhileD)
  ultimately show ?thesis by blast
qed

lemma takeWhile_no_NUL: "NUL \<notin> set l \<Longrightarrow> takeWhile (\<lambda>c. c \<noteq> NUL) (l @ xs) = l @ takeWhile (\<lambda>c. c \<noteq> NUL) xs"
  by (induction l) auto

lemma cstr_append: "NUL \<notin> set l \<Longrightarrow> cstr (l @ NUL # rest) = Some l"
  by (simp add: cstr_def takeWhile_no_NUL)

lemma cstr_length: "cstr b = Some l \<Longrightarrow> length l < length b"
  by (drule cstr_split) auto

lemma cstr_prefix_length:
  assumes "cstr (a @ c) = Some x" and "NUL \<notin> set a"
  shows "length a \<le> length x"
proof -
  from assms(1) have "x = takeWhile (\<lambda>c. c \<noteq> NUL) (a @ c)"
    by (auto simp: cstr_def split: if_splits)
  with assms(2) show ?thesis by (simp add: takeWhile_no_NUL)
qed

lemma takeWhile_take_cstr:
  assumes "NUL \<notin> set l"
  shows "takeWhile (\<lambda>c. c \<noteq> NUL) (take n (l @ NUL # rest)) = take n l"
proof (cases "n \<le> length l")
  case True
  then have "take n (l @ NUL # rest) = take n l" by simp
  moreover have "NUL \<notin> set (take n l)" using assms by (auto dest: in_set_takeD)
  ultimately show ?thesis using takeWhile_no_NUL [of "take n l" "[]"] by simp
next
  case False
  then obtain k where k: "n - length l = Suc k" by (cases "n - length l") auto
  with False have "take n (l @ NUL # rest) = l @ NUL # take k rest" by simp
  with assms False show ?thesis by (simp add: takeWhile_no_NUL)
qed

lemma strncpy_cstr:
  assumes "cstr src = Some l" and "n \<le> length dst"
  shows "strncpy dst src n = Inr (take n l @ replicate (n - length l) NUL @ drop n dst)"
proof -
  from cstr_split [OF assms(1)] obtain rest where
    src: "src = l @ NUL # rest" and l: "NUL \<notin> set l" by blast
  have "takeWhile (\<lambda>c. c \<noteq> NUL) (take n src) = take n l"
    unfolding src by (rule takeWhile_take_cstr [OF l])
  moreover have "length (take n l) < length src" using src by simp
  ultimately show ?thesis using assms(2) by (simp add: strncpy_def Let_def min_def)
qed

lemma strncpy_length:
  assumes "strncpy dst src n = Inr d"
  shows "length d = length dst"
proof -
  have "length (takeWhile (\<lambda>c. c \<noteq> NUL) (take n src)) \<le> length (take n src)"
    by (rule length_takeWhile_le)
  then have "length (takeWhile (\<lambda>c. c \<noteq> NUL) (take n src)) \<le> n" by simp
  with assms show ?thesis by (auto simp: strncpy_def Let_def split: if_splits)
qed

lemma gc_wrap_length: "length (gc_wrap l) = length l + 10"
  by (simp add: gc_wrap_def gc_prefix_def gc_suffix_def)

lemma gc_wrap_no_NUL: "NUL \<notin> set l \<Longrightarrow> NUL \<notin> set (gc_wrap l)"
  by (simp add: gc_wrap_def gc_prefix_def gc_suffix_def)

lemma sprintf_gc_cstr:
  assumes "cstr src = Some l"
  shows "sprintf_gc dst src =
           (if length dst < length l + 11 then Inl BufferOverrun
            else Inr (gc_wrap l @ NUL # drop (length l + 11) dst))"
  using assms by (simp add: sprintf_gc_def Let_def gc_wrap_length add.commute)

subsection \<open>command dispatch, path by path\<close>

lemma command_dispatch_ready:
  assumes "controller_state s = CONTROLLER_READY" and "SerialUSB_isConnected env (world s)"
    and "read_line env (in_buf s) (linelen s) (length (in_buf s)) (world s) = ((r, b, n), w)"
  shows "command_dispatch env s =
           (if r \<noteq> STAT_OK
            then Inr (STAT_OK, s\<lparr>in_buf := b, linelen := n, world := w,
                   trace := trace s @ [Called (C_read_line (in_buf s) (linelen s) (length (in_buf s)))]\<rparr>)
            else execute_line env (s\<lparr>in_buf := b, linelen := n, world := w,
                   trace := trace s @ [Called (C_read_line (in_buf s) (linelen s) (length (in_buf s)))]\<rparr>))"
  using assms by (simp add: command_dispatch_def do_read_line_def called_def)

lemma command_dispatch_unplugged:
  assumes "\<not> SerialUSB_isConnected env (world s)"
  shows "command_dispatch env s = Inr (STAT_OK, s\<lparr>controller_state := CONTROLLER_NOT_CONNECTED\<rparr>)"
  using assms by (simp add: command_dispatch_def)

lemma command_dispatch_connect:
  assumes "controller_state s = CONTROLLER_NOT_CONNECTED" and "SerialUSB_isConnected env (world s)"
  shows "command_dispatch env s =
           execute_line env
             (s\<lparr>world := rpt_print_system_ready_message env (cm_request_queue_flush env (world s)),
                trace := trace s @ [Called C_cm_request_queue_flush,
                                    Called C_rpt_print_system_ready_message],
                controller_state := CONTROLLER_STARTUP\<rparr>)"
  using assms by (simp add: command_dispatch_def do_defs)

lemma command_dispatch_startup:
  assumes "controller_state s = CONTROLLER_STARTUP" and "SerialUSB_isConnected env (world s)"
  shows "command_dispatch env s = execute_line env (s\<lparr>controller_state := CONTROLLER_READY\<rparr>)"
  using assms by (simp add: command_dispatch_def)

lemma command_dispatch_other:
  assumes "controller_state s = CONTROLLER_OTHER" and "SerialUSB_isConnected env (world s)"
  shows "command_dispatch env s = Inr (STAT_OK, s)"
  using assms by (simp add: command_dispatch_def)

lemma execute_line_result:
  assumes "execute_line env s = Inr (r, s')"
  shows "r = STAT_OK \<and> controller_state s' = controller_state s \<and> linelen s' = 0 \<and>
         strncpy (saved_buf s) (in_buf s) (SAVED_BUFFER_LEN env - 1) = Inr (saved_buf s')"
  using assms unfolding execute_line_def Let_def
  by (auto simp: do_defs case_prod_beta split: if_splits sum.splits list.splits)

lemma command_dispatch_STAT_OK:
  assumes "command_dispatch env s = Inr (r, s')"
  shows "r = STAT_OK"
  using assms unfolding command_dispatch_def Let_def
  by (auto simp: case_prod_beta split: if_splits dest: execute_line_result)

lemma execute_line_empty:
  assumes "0 < SAVED_BUFFER_LEN env"
    and "strncpy (saved_buf s) (in_buf s) (SAVED_BUFFER_LEN env - 1) = Inr sv"
    and "in_buf s = NUL # rest"
  shows "execute_line env s =
           Inr (STAT_OK,
                if comm_mode s \<noteq> JSON_MODE
                then s\<lparr>saved_buf := sv, linelen := 0,
                       world := text_response env STAT_OK sv (world s),
                       trace := trace s @ [Called (C_text_response STAT_OK sv)]\<rparr>
                else s\<lparr>saved_buf := sv, linelen := 0\<rparr>)"
  using assms by (simp add: execute_line_def do_defs toupper_def)

lemma execute_line_gcode_text:
  assumes "0 < SAVED_BUFFER_LEN env"
    and "strncpy (saved_buf s) (in_buf s) (SAVED_BUFFER_LEN env - 1) = Inr sv"
    and "in_buf s = c0 # rest"
    and "toupper c0 \<notin> {NUL, CHR ''H'', CHR ''$'', CHR ''?'', CHR ''{''}"
    and "comm_mode s \<noteq> JSON_MODE"
  shows "execute_line env s =
           Inr (STAT_OK,
                s\<lparr>saved_buf := sv, linelen := 0,
                  world := text_response env (fst (gc_gcode_parser env (in_buf s) (world s))) sv
                             (snd (gc_gcode_parser env (in_buf s) (world s))),
                  trace := trace s @
                    [Called (C_gc_gcode_parser (in_buf s)),
                     Called (C_text_response (fst (gc_gcode_parser env (in_buf s) (world s))) sv)]\<rparr>)"
  using assms by (simp add: execute_line_def do_defs case_prod_beta)

lemma execute_line_gcode_json:
  assumes "0 < SAVED_BUFFER_LEN env"
    and "strncpy (saved_buf s) (in_buf s) (SAVED_BUFFER_LEN env - 1) = Inr sv"
    and "in_buf s = c0 # rest"
    and "toupper c0 \<notin> {NUL, CHR ''H'', CHR ''$'', CHR ''?'', CHR ''{''}"
    and "comm_mode s = JSON_MODE"
  shows "execute_line env s =
           (if INPUT_BUFFER_LEN env < 8 then Inl BufferOverrun
            else case strncpy (out_buf s) (in_buf s) (INPUT_BUFFER_LEN env - 8) of
              Inl f \<Rightarrow> Inl f
            | Inr ob \<Rightarrow>
               (case sprintf_gc (in_buf s) ob of
                  Inl f \<Rightarrow> Inl f
                | Inr ib \<Rightarrow>
                    Inr (STAT_OK,
                         s\<lparr>saved_buf := sv, linelen := 0, out_buf := ob, in_buf := ib,
                           world := json_parser env ib (world s),
                           trace := trace s @ [Called (C_json_parser ib)]\<rparr>)))"
  using assms by (simp add: execute_line_def do_defs split: sum.splits)

lemma execute_line_handlers:
  assumes "execute_line env s = Inr (r, s')"
  shows "trace s' = trace s @
     (if toupper (hd (in_buf s)) = NUL then
        (if comm_mode s \<noteq> JSON_MODE
         then [Called (C_text_response STAT_OK (saved_buf s'))] else [])
      else if toupper (hd (in_buf s)) = CHR ''H'' then
        [Called C_help_general, Called (C_text_response STAT_OK (in_buf s))]
      else if toupper (hd (in_buf s)) = CHR ''$'' \<or> toupper (hd (in_buf s)) = CHR ''?'' then
        [Called (C_text_parser (in_buf s)),
         Called (C_text_response (fst (text_parser env (in_buf s) (world s))) (saved_buf s'))]
      else if toupper (hd (in_buf s)) = CHR ''{'' then [Called (C_json_parser (in_buf s))]
      else if comm_mode s = JSON_MODE then [Called (C_json_parser (in_buf s'))]
      else [Called (C_gc_gcode_parser (in_buf s)),
            Called (C_text_response (fst (gc_gcode_parser env (in_buf s) (world s)))
                      (saved_buf s'))])"
  using assms unfolding execute_line_def Let_def
  by (auto simp: do_defs case_prod_beta split: if_splits sum.splits list.splits)

lemma empty_line_dispatch:
  assumes "controller_state s = CONTROLLER_READY" and "SerialUSB_isConnected env (world s)"
    and "read_line env (in_buf s) (linelen s) (length (in_buf s)) (world s) = ((STAT_OK, b, n), w)"
    and "cstr b = Some []"
    and "comm_mode s \<noteq> JSON_MODE"
    and "length (saved_buf s) = SAVED_BUFFER_LEN env" and "2 \<le> SAVED_BUFFER_LEN env"
  shows "\<exists>s1. command_dispatch env s = Inr (STAT_OK, s1) \<and>
           trace s1 = trace s @
             [Called (C_read_line (in_buf s) (linelen s) (length (in_buf s))),
              Called (C_text_response STAT_OK (saved_buf s1))] \<and>
           cstr (saved_buf s1) = Some [] \<and> length (saved_buf s1) = SAVED_BUFFER_LEN env \<and>
           linelen s1 = 0 \<and> in_buf s1 = b \<and>
           controller_state s1 = CONTROLLER_READY \<and> comm_mode s1 = comm_mode s \<and>
           world s1 = text_response env STAT_OK (saved_buf s1) w"
proof -
  let ?s1 = "s\<lparr>in_buf := b, linelen := n, world := w,
               trace := trace s @ [Called (C_read_line (in_buf s) (linelen s) (length (in_buf s)))]\<rparr>"
  let ?m = "SAVED_BUFFER_LEN env - 1"
  define sv where "sv = replicate ?m NUL @ drop ?m (saved_buf s)"
  have cd: "command_dispatch env s = execute_line env ?s1"
    using command_dispatch_ready [OF assms(1-3)] by simp
  from cstr_split [OF assms(4)] obtain rest where b: "b = NUL # rest" by auto
  have sv: "strncpy (saved_buf ?s1) (in_buf ?s1) ?m = Inr sv"
    unfolding sv_def using strncpy_cstr [OF assms(4), of ?m "saved_buf s"] assms(6) by simp
  from assms(7) obtain k where k: "?m = Suc k" by (cases ?m) auto
  have c: "cstr sv = Some []" unfolding sv_def k by (simp add: cstr_def)
  have len: "length sv = SAVED_BUFFER_LEN env"
    using strncpy_length [OF sv] assms(6) by simp
  have p: "0 < SAVED_BUFFER_LEN env" using assms(7) by simp
  have "execute_line env ?s1 =
          Inr (STAT_OK, ?s1\<lparr>saved_buf := sv, linelen := 0,
                 world := text_response env STAT_OK sv (world ?s1),
                 trace := trace ?s1 @ [Called (C_text_response STAT_OK sv)]\<rparr>)"
    using execute_line_empty [OF p sv, of rest] b assms(5) by simp
  with cd c len assms(1) show ?thesis by simp
qed

subsection \<open>Running the model on the test bench\<close>

lemma replicate_numeral_unfold: "replicate (numeral k) x = x # replicate (pred_numeral k) x"
  by (simp add: numeral_eq_Suc)

lemmas model_defs = controller_HSM_def dispatch_table_def ext_task_def alarm_idler_def
  normal_idler_def limit_switch_handler_def sync_to_planner_def command_dispatch_def
  execute_line_def do_defs strncpy_def sprintf_gc_def cstr_def gc_wrap_def gc_prefix_def
  gc_suffix_def toupper_def char_of_def bit_Suc_0_iff Let_def

lemmas bench_defs = bench_env_def bench_sys_def bench_idle_def bench_read_line_def
  bench_busy_def bench_alarm_def bench_unplugged_def bench_line_def bench_gcode_def
  bench_empty_lines_def bench_empty_lines_after_def bench_stale_def bench_stale_after_def
  replicate_numeral_unfold

section \<open>The claims\<close>

text \<open>
  C1. Veto semantics. In one iteration of the loop the entries that run are by position
  the first entries of the dispatch list; the entry at position \<open>K\<close> runs if and only if
  every entry before it ran and returned something other than \<^verbatim>\<open>STAT_EAGAIN\<close> in
  this iteration; and an entry that returns \<^verbatim>\<open>STAT_EAGAIN\<close> is the last one to run.
  The state \<open>s\<close> the iteration starts from is arbitrary, so nothing of an earlier
  iteration enters but what the tasks themselves keep in the state.
\<close>

theorem veto_semantics:
  assumes "controller_HSM env s = Inr s'"
  shows "\<exists>tr. trace s' = trace s @ tr \<and>
           map fst (dispatched tr) = take (length (dispatched tr)) dispatch_table \<and>
           (\<forall>K<length dispatch_table.
              (K < length (dispatched tr)) =
              (\<forall>J<K. J < length (dispatched tr) \<and> snd (dispatched tr ! J) \<noteq> STAT_EAGAIN)) \<and>
           (\<forall>K<length (dispatched tr).
              snd (dispatched tr ! K) = STAT_EAGAIN \<longrightarrow> length (dispatched tr) = Suc K)"
proof -
  from assms obtain tr where tr: "trace s' = trace s @ tr" "tick_shape dispatch_table (dispatched tr)"
    unfolding controller_HSM_def using DISPATCH_tick_shape by blast
  show ?thesis
    using tr tick_shape_prefix [OF tr(2)] tick_shape_invoked_iff [OF tr(2)]
      tick_shape_blocked_last [OF tr(2)]
    by blast
qed

text \<open>
  A tick on the test bench with two free planner buffers: the backpressure gate is the
  twelfth entry to run and the last.
\<close>

theorem veto_semantics_witness:
  "controller_HSM bench_env (bench_sys CONTROLLER_READY TEXT_MODE bench_busy) =
     Inr ((bench_sys CONTROLLER_READY TEXT_MODE bench_busy)
       \<lparr>trace :=
          [Dispatched HW_HARD_RESET_HANDLER STAT_OK, Dispatched ALARM_IDLER STAT_OK,
           Dispatched POLL_SWITCHES STAT_OK, Dispatched LIMIT_SWITCH_HANDLER STAT_OK,
           Dispatched CM_FEEDHOLD_SEQUENCING_CALLBACK STAT_NOOP,
           Dispatched MP_PLAN_HOLD_CALLBACK STAT_NOOP,
           Dispatched ST_MOTOR_POWER_CALLBACK STAT_OK,
           Dispatched SR_STATUS_REPORT_CALLBACK STAT_OK,
           Dispatched QR_QUEUE_REPORT_CALLBACK STAT_OK,
           Dispatched CM_ARC_CALLBACK STAT_NOOP, Dispatched CM_HOMING_CALLBACK STAT_NOOP,
           Dispatched SYNC_TO_PLANNER STAT_EAGAIN]\<rparr>) \<and>
   (\<exists>tr. trace ((bench_sys CONTROLLER_READY TEXT_MODE bench_busy)
       \<lparr>trace :=
          [Dispatched HW_HARD_RESET_HANDLER STAT_OK, Dispatched ALARM_IDLER STAT_OK,
           Dispatched POLL_SWITCHES STAT_OK, Dispatched LIMIT_SWITCH_HANDLER STAT_OK,
           Dispatched CM_FEEDHOLD_SEQUENCING_CALLBACK STAT_NOOP,
           Dispatched MP_PLAN_HOLD_CALLBACK STAT_NOOP,
           Dispatched ST_MOTOR_POWER_CALLBACK STAT_OK,
           Dispatched SR_STATUS_REPORT_CALLBACK STAT_OK,
           Dispatched QR_QUEUE_REPORT_CALLBACK STAT_OK,
           Dispatched CM_ARC_CALLBACK STAT_NOOP, Dispatched CM_HOMING_CALLBACK STAT_NOOP,
           Dispatched SYNC_TO_PLANNER STAT_EAGAIN]\<rparr>) =
         trace (bench_sys CONTROLLER_READY TEXT_MODE bench_busy) @ tr \<and>
      map fst (dispatched tr) = take (length (dispatched tr)) dispatch_table \<and>
      (\<forall>K<length dispatch_table.
         (K < length (dispatched tr)) =
         (\<forall>J<K. J < length (dispatched tr) \<and> snd (dispatched tr ! J) \<noteq> STAT_EAGAIN)) \<and>
      (\<forall>K<length (dispatched tr).
         snd (dispatched tr ! K) = STAT_EAGAIN \<longrightarrow> length (dispatched tr) = Suc K))"
proof -
  have h: "controller_HSM bench_env (bench_sys CONTROLLER_READY TEXT_MODE bench_busy) =
     Inr ((bench_sys CONTROLLER_READY TEXT_MODE bench_busy)
       \<lparr>trace :=
          [Dispatched HW_HARD_RESET_HANDLER STAT_OK, Dispatched ALARM_IDLER STAT_OK,
           Dispatched POLL_SWITCHES STAT_OK, Dispatched LIMIT_SWITCH_HANDLER STAT_OK,
           Dispatched CM_FEEDHOLD_SEQUENCING_CALLBACK STAT_NOOP,
           Dispatched MP_PLAN_HOLD_CALLBACK STAT_NOOP,
           Dispatched ST_MOTOR_POWER_CALLBACK STAT_OK,
           Dispatched SR_STATUS_REPORT_CALLBACK STAT_OK,
           Dispatched QR_QUEUE_REPORT_CALLBACK STAT_OK,
           Dispatched CM_ARC_CALLBACK STAT_NOOP, Dispatched CM_HOMING_CALLBACK STAT_NOOP,
           Dispatched SYNC_TO_PLANNER STAT_EAGAIN]\<rparr>)"
    by (simp add: model_defs bench_defs)
  show ?thesis by (rule conjI [OF h veto_semantics [OF h]])
qed

text \<open>
  C5. The order of the dispatch list. The entries that run in an iteration are an initial
  segment of the fourteen \<^verbatim>\<open>DISPATCH\<close> lines in the order of the source, all
  fourteen when none returns \<^verbatim>\<open>STAT_EAGAIN\<close>, and nothing else is dispatched in
  between. Read as steps of the specification's ordering they are its twelve steps in
  ascending order, steps 5 and 7 taking two entries each.
\<close>

theorem dispatch_order:
  assumes "controller_HSM env s = Inr s'"
  shows "\<exists>tr. trace s' = trace s @ tr \<and>
           prefix (map fst (dispatched tr))
             [HW_HARD_RESET_HANDLER, ALARM_IDLER, POLL_SWITCHES, LIMIT_SWITCH_HANDLER,
              CM_FEEDHOLD_SEQUENCING_CALLBACK, MP_PLAN_HOLD_CALLBACK,
              ST_MOTOR_POWER_CALLBACK, SR_STATUS_REPORT_CALLBACK, QR_QUEUE_REPORT_CALLBACK,
              CM_ARC_CALLBACK, CM_HOMING_CALLBACK,
              SYNC_TO_PLANNER, COMMAND_DISPATCH, NORMAL_IDLER] \<and>
           ((\<forall>x\<in>set (dispatched tr). snd x \<noteq> STAT_EAGAIN) \<longrightarrow>
              map fst (dispatched tr) =
                [HW_HARD_RESET_HANDLER, ALARM_IDLER, POLL_SWITCHES, LIMIT_SWITCH_HANDLER,
                 CM_FEEDHOLD_SEQUENCING_CALLBACK, MP_PLAN_HOLD_CALLBACK,
                 ST_MOTOR_POWER_CALLBACK, SR_STATUS_REPORT_CALLBACK, QR_QUEUE_REPORT_CALLBACK,
                 CM_ARC_CALLBACK, CM_HOMING_CALLBACK,
                 SYNC_TO_PLANNER, COMMAND_DISPATCH, NORMAL_IDLER]) \<and>
           map spec_step (map fst (dispatched tr)) =
             take (length (dispatched tr)) [1, 2, 3, 4, 5, 5, 6, 7, 7, 8, 9, 10, 11, 12]"
proof -
  from assms obtain tr where tr: "trace s' = trace s @ tr" "tick_shape dispatch_table (dispatched tr)"
    unfolding controller_HSM_def using DISPATCH_tick_shape by blast
  have p: "map fst (dispatched tr) = take (length (dispatched tr)) dispatch_table"
    by (rule tick_shape_prefix [OF tr(2)])
  have "prefix (map fst (dispatched tr)) dispatch_table"
    by (subst p) (rule take_is_prefix)
  moreover have "(\<forall>x\<in>set (dispatched tr). snd x \<noteq> STAT_EAGAIN) \<longrightarrow>
      map fst (dispatched tr) = dispatch_table"
    using tick_shape_complete [OF tr(2)] by blast
  moreover have "map spec_step (map fst (dispatched tr)) =
      take (length (dispatched tr)) (map spec_step dispatch_table)"
    by (subst p) (simp add: take_map)
  ultimately show ?thesis
    using tr(1) by (auto simp: dispatch_table_def)
qed

text \<open>
  A tick on the test bench with an incomplete line at the transport: all fourteen
  entries run.
\<close>

theorem dispatch_order_witness:
  "controller_HSM bench_env
     (bench_sys CONTROLLER_READY TEXT_MODE (bench_idle\<lparr>bench_partial := ''g0''\<rparr>)) =
     Inr ((bench_sys CONTROLLER_READY TEXT_MODE (bench_idle\<lparr>bench_partial := ''g0''\<rparr>))
       \<lparr>in_buf := ''g0'' @ replicate 22 NUL, linelen := 2,
        trace :=
          [Dispatched HW_HARD_RESET_HANDLER STAT_OK, Dispatched ALARM_IDLER STAT_OK,
           Dispatched POLL_SWITCHES STAT_OK, Dispatched LIMIT_SWITCH_HANDLER STAT_OK,
           Dispatched CM_FEEDHOLD_SEQUENCING_CALLBACK STAT_NOOP,
           Dispatched MP_PLAN_HOLD_CALLBACK STAT_NOOP,
           Dispatched ST_MOTOR_POWER_CALLBACK STAT_OK,
           Dispatched SR_STATUS_REPORT_CALLBACK STAT_OK,
           Dispatched QR_QUEUE_REPORT_CALLBACK STAT_OK,
           Dispatched CM_ARC_CALLBACK STAT_NOOP, Dispatched CM_HOMING_CALLBACK STAT_NOOP,
           Dispatched SYNC_TO_PLANNER STAT_OK,
           Called (C_read_line (replicate 24 NUL) 0 24),
           Dispatched COMMAND_DISPATCH STAT_OK, Dispatched NORMAL_IDLER STAT_OK]\<rparr>) \<and>
   (\<exists>tr. trace ((bench_sys CONTROLLER_READY TEXT_MODE (bench_idle\<lparr>bench_partial := ''g0''\<rparr>))
       \<lparr>in_buf := ''g0'' @ replicate 22 NUL, linelen := 2,
        trace :=
          [Dispatched HW_HARD_RESET_HANDLER STAT_OK, Dispatched ALARM_IDLER STAT_OK,
           Dispatched POLL_SWITCHES STAT_OK, Dispatched LIMIT_SWITCH_HANDLER STAT_OK,
           Dispatched CM_FEEDHOLD_SEQUENCING_CALLBACK STAT_NOOP,
           Dispatched MP_PLAN_HOLD_CALLBACK STAT_NOOP,
           Dispatched ST_MOTOR_POWER_CALLBACK STAT_OK,
           Dispatched SR_STATUS_REPORT_CALLBACK STAT_OK,
           Dispatched QR_QUEUE_REPORT_CALLBACK STAT_OK,
           Dispatched CM_ARC_CALLBACK STAT_NOOP, Dispatched CM_HOMING_CALLBACK STAT_NOOP,
           Dispatched SYNC_TO_PLANNER STAT_OK,
           Called (C_read_line (replicate 24 NUL) 0 24),
           Dispatched COMMAND_DISPATCH STAT_OK, Dispatched NORMAL_IDLER STAT_OK]\<rparr>) =
         trace (bench_sys CONTROLLER_READY TEXT_MODE (bench_idle\<lparr>bench_partial := ''g0''\<rparr>)) @ tr \<and>
      prefix (map fst (dispatched tr))
        [HW_HARD_RESET_HANDLER, ALARM_IDLER, POLL_SWITCHES, LIMIT_SWITCH_HANDLER,
         CM_FEEDHOLD_SEQUENCING_CALLBACK, MP_PLAN_HOLD_CALLBACK,
         ST_MOTOR_POWER_CALLBACK, SR_STATUS_REPORT_CALLBACK, QR_QUEUE_REPORT_CALLBACK,
         CM_ARC_CALLBACK, CM_HOMING_CALLBACK,
         SYNC_TO_PLANNER, COMMAND_DISPATCH, NORMAL_IDLER] \<and>
      ((\<forall>x\<in>set (dispatched tr). snd x \<noteq> STAT_EAGAIN) \<longrightarrow>
         map fst (dispatched tr) =
           [HW_HARD_RESET_HANDLER, ALARM_IDLER, POLL_SWITCHES, LIMIT_SWITCH_HANDLER,
            CM_FEEDHOLD_SEQUENCING_CALLBACK, MP_PLAN_HOLD_CALLBACK,
            ST_MOTOR_POWER_CALLBACK, SR_STATUS_REPORT_CALLBACK, QR_QUEUE_REPORT_CALLBACK,
            CM_ARC_CALLBACK, CM_HOMING_CALLBACK,
            SYNC_TO_PLANNER, COMMAND_DISPATCH, NORMAL_IDLER]) \<and>
      map spec_step (map fst (dispatched tr)) =
        take (length (dispatched tr)) [1, 2, 3, 4, 5, 5, 6, 7, 7, 8, 9, 10, 11, 12])"
proof -
  have h: "controller_HSM bench_env
     (bench_sys CONTROLLER_READY TEXT_MODE (bench_idle\<lparr>bench_partial := ''g0''\<rparr>)) =
     Inr ((bench_sys CONTROLLER_READY TEXT_MODE (bench_idle\<lparr>bench_partial := ''g0''\<rparr>))
       \<lparr>in_buf := ''g0'' @ replicate 22 NUL, linelen := 2,
        trace :=
          [Dispatched HW_HARD_RESET_HANDLER STAT_OK, Dispatched ALARM_IDLER STAT_OK,
           Dispatched POLL_SWITCHES STAT_OK, Dispatched LIMIT_SWITCH_HANDLER STAT_OK,
           Dispatched CM_FEEDHOLD_SEQUENCING_CALLBACK STAT_NOOP,
           Dispatched MP_PLAN_HOLD_CALLBACK STAT_NOOP,
           Dispatched ST_MOTOR_POWER_CALLBACK STAT_OK,
           Dispatched SR_STATUS_REPORT_CALLBACK STAT_OK,
           Dispatched QR_QUEUE_REPORT_CALLBACK STAT_OK,
           Dispatched CM_ARC_CALLBACK STAT_NOOP, Dispatched CM_HOMING_CALLBACK STAT_NOOP,
           Dispatched SYNC_TO_PLANNER STAT_OK,
           Called (C_read_line (replicate 24 NUL) 0 24),
           Dispatched COMMAND_DISPATCH STAT_OK, Dispatched NORMAL_IDLER STAT_OK]\<rparr>)"
    by (simp add: model_defs bench_defs)
  show ?thesis by (rule conjI [OF h dispatch_order [OF h]])
qed

text \<open>
  C7. The backpressure gate returns \<^verbatim>\<open>STAT_EAGAIN\<close> exactly when the planner
  reports fewer available buffers than \<^verbatim>\<open>PLANNER_BUFFER_HEADROOM\<close> and
  \<^verbatim>\<open>STAT_OK\<close> otherwise, and it leaves the whole state as it found it.
\<close>

theorem sync_to_planner_poll:
  "(fst (sync_to_planner env s) = STAT_EAGAIN) =
     (mp_get_planner_buffers_available env (world s) < PLANNER_BUFFER_HEADROOM env) \<and>
   (fst (sync_to_planner env s) = STAT_OK) =
     (PLANNER_BUFFER_HEADROOM env \<le> mp_get_planner_buffers_available env (world s)) \<and>
   snd (sync_to_planner env s) = s"
  by (simp add: sync_to_planner_def not_less)

text \<open>
  C3. The alarm idler returns \<^verbatim>\<open>STAT_EAGAIN\<close> when the machine state is
  \<^verbatim>\<open>MACHINE_ALARM\<close> and \<^verbatim>\<open>STAT_OK\<close>, with no effect, otherwise. In an
  iteration in which the machine is in alarm when the idler is reached, the hard-reset
  handler runs, then (unless the handler itself returned \<^verbatim>\<open>STAT_EAGAIN\<close>) the alarm
  idler, and no other entry; the only collaborator that may be called is the LED toggle.
\<close>

theorem alarm_idler_vetoes:
  "(cm_get_machine_state env (world s) = MACHINE_ALARM env \<longrightarrow>
      fst (alarm_idler env s) = STAT_EAGAIN) \<and>
   (cm_get_machine_state env (world s) \<noteq> MACHINE_ALARM env \<longrightarrow>
      alarm_idler env s = (STAT_OK, s)) \<and>
   (\<forall>r w. hw_hard_reset_handler env (world s) = (r, w) \<and>
           cm_get_machine_state env w = MACHINE_ALARM env \<longrightarrow>
      (\<exists>s' tr. controller_HSM env s = Inr s' \<and> trace s' = trace s @ tr \<and>
         dispatched tr =
           (if r = STAT_EAGAIN then [(HW_HARD_RESET_HANDLER, r)]
            else [(HW_HARD_RESET_HANDLER, r), (ALARM_IDLER, STAT_EAGAIN)]) \<and>
         (calls tr = [] \<or> calls tr = [C_IndicatorLed_toggle])))"
  using DISPATCH_alarm [of env s] by (auto simp: alarm_idler_def)

text \<open>
  On the test bench: a machine in alarm, where the tick ends at the alarm idler, and a
  machine not in alarm, where the idler does nothing.
\<close>

theorem alarm_idler_vetoes_witness:
  "cm_get_machine_state bench_env (world (bench_sys CONTROLLER_READY TEXT_MODE bench_alarm)) =
     MACHINE_ALARM bench_env \<and>
   fst (alarm_idler bench_env (bench_sys CONTROLLER_READY TEXT_MODE bench_alarm)) = STAT_EAGAIN \<and>
   hw_hard_reset_handler bench_env (world (bench_sys CONTROLLER_READY TEXT_MODE bench_alarm)) =
     (STAT_OK, bench_alarm) \<and>
   cm_get_machine_state bench_env bench_alarm = MACHINE_ALARM bench_env \<and>
   (\<exists>s' tr. controller_HSM bench_env (bench_sys CONTROLLER_READY TEXT_MODE bench_alarm) = Inr s' \<and>
      trace s' = trace (bench_sys CONTROLLER_READY TEXT_MODE bench_alarm) @ tr \<and>
      dispatched tr = [(HW_HARD_RESET_HANDLER, STAT_OK), (ALARM_IDLER, STAT_EAGAIN)] \<and>
      (calls tr = [] \<or> calls tr = [C_IndicatorLed_toggle])) \<and>
   cm_get_machine_state bench_env (world (bench_sys CONTROLLER_READY TEXT_MODE bench_idle)) \<noteq>
     MACHINE_ALARM bench_env \<and>
   alarm_idler bench_env (bench_sys CONTROLLER_READY TEXT_MODE bench_idle) =
     (STAT_OK, bench_sys CONTROLLER_READY TEXT_MODE bench_idle)"
proof -
  let ?A = "bench_sys CONTROLLER_READY TEXT_MODE bench_alarm"
  let ?I = "bench_sys CONTROLLER_READY TEXT_MODE bench_idle"
  have a: "cm_get_machine_state bench_env (world ?A) = MACHINE_ALARM bench_env"
    by (simp add: bench_defs)
  have hw: "hw_hard_reset_handler bench_env (world ?A) = (STAT_OK, bench_alarm)"
    by (simp add: bench_defs)
  have a': "cm_get_machine_state bench_env bench_alarm = MACHINE_ALARM bench_env"
    by (simp add: bench_defs)
  have n: "cm_get_machine_state bench_env (world ?I) \<noteq> MACHINE_ALARM bench_env"
    by (simp add: bench_defs)
  note t = alarm_idler_vetoes [of bench_env ?A]
  from t a have c1: "fst (alarm_idler bench_env ?A) = STAT_EAGAIN" by blast
  from t hw a' have "\<exists>s' tr. controller_HSM bench_env ?A = Inr s' \<and> trace s' = trace ?A @ tr \<and>
      dispatched tr =
        (if STAT_OK = STAT_EAGAIN then [(HW_HARD_RESET_HANDLER, STAT_OK)]
         else [(HW_HARD_RESET_HANDLER, STAT_OK), (ALARM_IDLER, STAT_EAGAIN)]) \<and>
      (calls tr = [] \<or> calls tr = [C_IndicatorLed_toggle])"
    by blast
  then have c3: "\<exists>s' tr. controller_HSM bench_env ?A = Inr s' \<and> trace s' = trace ?A @ tr \<and>
      dispatched tr = [(HW_HARD_RESET_HANDLER, STAT_OK), (ALARM_IDLER, STAT_EAGAIN)] \<and>
      (calls tr = [] \<or> calls tr = [C_IndicatorLed_toggle])"
    by (simp only: stat_t.distinct if_False)
  from alarm_idler_vetoes [of bench_env ?I] n
  have c2: "alarm_idler bench_env ?I = (STAT_OK, ?I)" by blast
  show ?thesis by (intro conjI a c1 hw a' c3 n c2)
qed

text \<open>
  C8. The command dispatcher never returns \<^verbatim>\<open>STAT_EAGAIN\<close>: whatever it returns is
  \<^verbatim>\<open>STAT_OK\<close>. When the state is ready and \<^verbatim>\<open>read_line\<close> does not report a
  complete line, it returns \<^verbatim>\<open>STAT_OK\<close> with the buffer and the cursor as
  \<^verbatim>\<open>read_line\<close> left them; when the transport is not connected it returns
  \<^verbatim>\<open>STAT_OK\<close> at once; and with a terminated line and a response mode other than
  JSON it does return.
\<close>

theorem command_dispatch_never_blocks:
  "(\<forall>r s'. command_dispatch env s = Inr (r, s') \<longrightarrow> r = STAT_OK) \<and>
   (\<forall>r b n w.
      controller_state s = CONTROLLER_READY \<and> SerialUSB_isConnected env (world s) \<and>
      read_line env (in_buf s) (linelen s) (length (in_buf s)) (world s) = ((r, b, n), w) \<and>
      r \<noteq> STAT_OK \<longrightarrow>
      command_dispatch env s =
        Inr (STAT_OK,
             s\<lparr>in_buf := b, linelen := n, world := w,
               trace := trace s @
                 [Called (C_read_line (in_buf s) (linelen s) (length (in_buf s)))]\<rparr>)) \<and>
   (\<not> SerialUSB_isConnected env (world s) \<longrightarrow>
      command_dispatch env s = Inr (STAT_OK, s\<lparr>controller_state := CONTROLLER_NOT_CONNECTED\<rparr>)) \<and>
   (\<forall>b n w.
      controller_state s = CONTROLLER_READY \<and> SerialUSB_isConnected env (world s) \<and>
      read_line env (in_buf s) (linelen s) (length (in_buf s)) (world s) = ((STAT_OK, b, n), w) \<and>
      NUL \<in> set b \<and> comm_mode s \<noteq> JSON_MODE \<and>
      0 < SAVED_BUFFER_LEN env \<and> SAVED_BUFFER_LEN env \<le> Suc (length (saved_buf s)) \<longrightarrow>
      (\<exists>s'. command_dispatch env s = Inr (STAT_OK, s')))"
proof (intro conjI allI impI)
  fix r s' assume "command_dispatch env s = Inr (r, s')"
  then show "r = STAT_OK" by (rule command_dispatch_STAT_OK)
next
  fix r b n w
  assume "controller_state s = CONTROLLER_READY \<and> SerialUSB_isConnected env (world s) \<and>
      read_line env (in_buf s) (linelen s) (length (in_buf s)) (world s) = ((r, b, n), w) \<and>
      r \<noteq> STAT_OK"
  then show "command_dispatch env s =
        Inr (STAT_OK,
             s\<lparr>in_buf := b, linelen := n, world := w,
               trace := trace s @
                 [Called (C_read_line (in_buf s) (linelen s) (length (in_buf s)))]\<rparr>)"
    using command_dispatch_ready [of s env r b n w] by simp
next
  assume "\<not> SerialUSB_isConnected env (world s)"
  then show "command_dispatch env s = Inr (STAT_OK, s\<lparr>controller_state := CONTROLLER_NOT_CONNECTED\<rparr>)"
    by (rule command_dispatch_unplugged)
next
  fix b n w
  assume a: "controller_state s = CONTROLLER_READY \<and> SerialUSB_isConnected env (world s) \<and>
      read_line env (in_buf s) (linelen s) (length (in_buf s)) (world s) = ((STAT_OK, b, n), w) \<and>
      NUL \<in> set b \<and> comm_mode s \<noteq> JSON_MODE \<and>
      0 < SAVED_BUFFER_LEN env \<and> SAVED_BUFFER_LEN env \<le> Suc (length (saved_buf s))"
  let ?s1 = "s\<lparr>in_buf := b, linelen := n, world := w,
               trace := trace s @ [Called (C_read_line (in_buf s) (linelen s) (length (in_buf s)))]\<rparr>"
  from a have cd: "command_dispatch env s = execute_line env ?s1"
    using command_dispatch_ready [of s env STAT_OK b n w] by simp
  from a obtain l where l: "cstr b = Some l" by (auto simp: cstr_def)
  from a have "SAVED_BUFFER_LEN env - 1 \<le> length (saved_buf s)" by auto
  from strncpy_cstr [OF l this]
  obtain sv where sv: "strncpy (saved_buf ?s1) (in_buf ?s1) (SAVED_BUFFER_LEN env - 1) = Inr sv"
    by simp
  from a obtain c0 rest where b: "b = c0 # rest" by (cases b) auto
  have "\<exists>s'. execute_line env ?s1 = Inr (STAT_OK, s')"
    using a sv b unfolding execute_line_def Let_def
    by (simp add: case_prod_beta)
  with cd show "\<exists>s'. command_dispatch env s = Inr (STAT_OK, s')" by simp
qed

text \<open>
  On the test bench: the two characters of an incomplete line stay in the buffer with
  the cursor at 2; an unplugged transport; a complete line in text mode.
\<close>

theorem command_dispatch_never_blocks_witness:
  "controller_state (bench_sys CONTROLLER_READY TEXT_MODE (bench_idle\<lparr>bench_partial := ''g0''\<rparr>)) =
     CONTROLLER_READY \<and>
   SerialUSB_isConnected bench_env
     (world (bench_sys CONTROLLER_READY TEXT_MODE (bench_idle\<lparr>bench_partial := ''g0''\<rparr>))) \<and>
   read_line bench_env
     (in_buf (bench_sys CONTROLLER_READY TEXT_MODE (bench_idle\<lparr>bench_partial := ''g0''\<rparr>)))
     (linelen (bench_sys CONTROLLER_READY TEXT_MODE (bench_idle\<lparr>bench_partial := ''g0''\<rparr>)))
     (length (in_buf (bench_sys CONTROLLER_READY TEXT_MODE (bench_idle\<lparr>bench_partial := ''g0''\<rparr>))))
     (world (bench_sys CONTROLLER_READY TEXT_MODE (bench_idle\<lparr>bench_partial := ''g0''\<rparr>))) =
     ((STAT_EAGAIN, ''g0'' @ replicate 22 NUL, 2), bench_idle\<lparr>bench_partial := ''g0''\<rparr>) \<and>
   STAT_EAGAIN \<noteq> STAT_OK \<and>
   command_dispatch bench_env
     (bench_sys CONTROLLER_READY TEXT_MODE (bench_idle\<lparr>bench_partial := ''g0''\<rparr>)) =
     Inr (STAT_OK,
          (bench_sys CONTROLLER_READY TEXT_MODE (bench_idle\<lparr>bench_partial := ''g0''\<rparr>))
            \<lparr>in_buf := ''g0'' @ replicate 22 NUL, linelen := 2,
             world := bench_idle\<lparr>bench_partial := ''g0''\<rparr>,
             trace :=
               trace (bench_sys CONTROLLER_READY TEXT_MODE (bench_idle\<lparr>bench_partial := ''g0''\<rparr>)) @
               [Called (C_read_line
                  (in_buf (bench_sys CONTROLLER_READY TEXT_MODE (bench_idle\<lparr>bench_partial := ''g0''\<rparr>)))
                  (linelen (bench_sys CONTROLLER_READY TEXT_MODE (bench_idle\<lparr>bench_partial := ''g0''\<rparr>)))
                  (length (in_buf (bench_sys CONTROLLER_READY TEXT_MODE
                                     (bench_idle\<lparr>bench_partial := ''g0''\<rparr>)))))]\<rparr>) \<and>
   \<not> SerialUSB_isConnected bench_env (world (bench_sys CONTROLLER_READY TEXT_MODE bench_unplugged)) \<and>
   command_dispatch bench_env (bench_sys CONTROLLER_READY TEXT_MODE bench_unplugged) =
     Inr (STAT_OK, (bench_sys CONTROLLER_READY TEXT_MODE bench_unplugged)
                     \<lparr>controller_state := CONTROLLER_NOT_CONNECTED\<rparr>) \<and>
   controller_state (bench_gcode TEXT_MODE) = CONTROLLER_READY \<and>
   SerialUSB_isConnected bench_env (world (bench_gcode TEXT_MODE)) \<and>
   read_line bench_env (in_buf (bench_gcode TEXT_MODE)) (linelen (bench_gcode TEXT_MODE))
     (length (in_buf (bench_gcode TEXT_MODE))) (world (bench_gcode TEXT_MODE)) =
     ((STAT_OK, ''g1f400x100'' @ replicate 14 NUL, 10), bench_idle) \<and>
   NUL \<in> set (''g1f400x100'' @ replicate 14 NUL) \<and>
   comm_mode (bench_gcode TEXT_MODE) \<noteq> JSON_MODE \<and>
   0 < SAVED_BUFFER_LEN bench_env \<and>
   SAVED_BUFFER_LEN bench_env \<le> Suc (length (saved_buf (bench_gcode TEXT_MODE))) \<and>
   (\<exists>s'. command_dispatch bench_env (bench_gcode TEXT_MODE) = Inr (STAT_OK, s'))"
proof -
  let ?R = "bench_sys CONTROLLER_READY TEXT_MODE (bench_idle\<lparr>bench_partial := ''g0''\<rparr>)"
  let ?U = "bench_sys CONTROLLER_READY TEXT_MODE bench_unplugged"
  let ?T = "bench_gcode TEXT_MODE"
  have st: "controller_state ?R = CONTROLLER_READY" by (simp add: bench_defs)
  have con: "SerialUSB_isConnected bench_env (world ?R)" by (simp add: bench_defs)
  have rl: "read_line bench_env (in_buf ?R) (linelen ?R) (length (in_buf ?R)) (world ?R) =
      ((STAT_EAGAIN, ''g0'' @ replicate 22 NUL, 2), bench_idle\<lparr>bench_partial := ''g0''\<rparr>)"
    by (simp add: bench_defs)
  have ne: "STAT_EAGAIN \<noteq> STAT_OK" by simp
  have un: "\<not> SerialUSB_isConnected bench_env (world ?U)" by (simp add: bench_defs)
  have t1: "controller_state ?T = CONTROLLER_READY" by (simp add: bench_defs)
  have t2: "SerialUSB_isConnected bench_env (world ?T)" by (simp add: bench_defs)
  have t3: "read_line bench_env (in_buf ?T) (linelen ?T) (length (in_buf ?T)) (world ?T) =
      ((STAT_OK, ''g1f400x100'' @ replicate 14 NUL, 10), bench_idle)" by (simp add: bench_defs)
  have t4: "NUL \<in> set (''g1f400x100'' @ replicate 14 NUL)" by simp
  have t5: "comm_mode ?T \<noteq> JSON_MODE" by (simp add: bench_defs)
  have t6: "0 < SAVED_BUFFER_LEN bench_env" by (simp add: bench_defs)
  have t7: "SAVED_BUFFER_LEN bench_env \<le> Suc (length (saved_buf ?T))" by (simp add: bench_defs)
  from command_dispatch_never_blocks [of bench_env ?R] st con rl ne
  have c1: "command_dispatch bench_env ?R =
      Inr (STAT_OK, ?R\<lparr>in_buf := ''g0'' @ replicate 22 NUL, linelen := 2,
             world := bench_idle\<lparr>bench_partial := ''g0''\<rparr>,
             trace := trace ?R @
               [Called (C_read_line (in_buf ?R) (linelen ?R) (length (in_buf ?R)))]\<rparr>)"
    by blast
  from command_dispatch_never_blocks [of bench_env ?U] un
  have c2: "command_dispatch bench_env ?U =
      Inr (STAT_OK, ?U\<lparr>controller_state := CONTROLLER_NOT_CONNECTED\<rparr>)"
    by blast
  from command_dispatch_never_blocks [of bench_env ?T] t1 t2 t3 t4 t5 t6 t7
  have c3: "\<exists>s'. command_dispatch bench_env ?T = Inr (STAT_OK, s')"
    by blast
  show ?thesis by (intro conjI st con rl ne c1 un c2 t1 t2 t3 t4 t5 t6 t7 c3)
qed

text \<open>
  C2, as amended. One poll of the dispatcher that returns takes the connection state
  from not-connected to startup when the transport is connected and leaves it otherwise;
  from startup to ready when connected and to not-connected when not; from ready it
  stays when connected and goes to not-connected when not.
\<close>

theorem connection_transitions:
  assumes "command_dispatch env s = Inr (r, s')"
  shows "(controller_state s = CONTROLLER_NOT_CONNECTED \<longrightarrow>
            controller_state s' =
              (if SerialUSB_isConnected env (world s) then CONTROLLER_STARTUP
               else CONTROLLER_NOT_CONNECTED)) \<and>
         (controller_state s = CONTROLLER_STARTUP \<longrightarrow>
            controller_state s' =
              (if SerialUSB_isConnected env (world s) then CONTROLLER_READY
               else CONTROLLER_NOT_CONNECTED)) \<and>
         (controller_state s = CONTROLLER_READY \<longrightarrow>
            controller_state s' =
              (if SerialUSB_isConnected env (world s) then CONTROLLER_READY
               else CONTROLLER_NOT_CONNECTED))"
  using assms unfolding command_dispatch_def Let_def
  by (auto simp: do_defs case_prod_beta split: if_splits dest!: execute_line_result)

text \<open>On the test bench: a connected transport takes not-connected to startup.\<close>

theorem connection_transitions_witness:
  "command_dispatch bench_env (bench_sys CONTROLLER_NOT_CONNECTED TEXT_MODE bench_idle) =
     Inr (STAT_OK,
          (bench_sys CONTROLLER_NOT_CONNECTED TEXT_MODE bench_idle)
            \<lparr>controller_state := CONTROLLER_STARTUP,
             trace := [Called C_cm_request_queue_flush, Called C_rpt_print_system_ready_message,
                       Called (C_text_response STAT_OK (replicate 12 NUL))]\<rparr>) \<and>
   controller_state (bench_sys CONTROLLER_NOT_CONNECTED TEXT_MODE bench_idle) =
     CONTROLLER_NOT_CONNECTED \<and>
   SerialUSB_isConnected bench_env (world (bench_sys CONTROLLER_NOT_CONNECTED TEXT_MODE bench_idle)) \<and>
   controller_state
     ((bench_sys CONTROLLER_NOT_CONNECTED TEXT_MODE bench_idle)
        \<lparr>controller_state := CONTROLLER_STARTUP,
         trace := [Called C_cm_request_queue_flush, Called C_rpt_print_system_ready_message,
                   Called (C_text_response STAT_OK (replicate 12 NUL))]\<rparr>) =
     (if SerialUSB_isConnected bench_env
           (world (bench_sys CONTROLLER_NOT_CONNECTED TEXT_MODE bench_idle))
      then CONTROLLER_STARTUP else CONTROLLER_NOT_CONNECTED)"
proof -
  let ?N = "bench_sys CONTROLLER_NOT_CONNECTED TEXT_MODE bench_idle"
  have h: "command_dispatch bench_env ?N =
     Inr (STAT_OK, ?N\<lparr>controller_state := CONTROLLER_STARTUP,
             trace := [Called C_cm_request_queue_flush, Called C_rpt_print_system_ready_message,
                       Called (C_text_response STAT_OK (replicate 12 NUL))]\<rparr>)"
    by (simp add: model_defs bench_defs)
  have st: "controller_state ?N = CONTROLLER_NOT_CONNECTED" by (simp add: bench_defs)
  have con: "SerialUSB_isConnected bench_env (world ?N)" by (simp add: bench_defs)
  from connection_transitions [OF h] st
  have c: "controller_state (?N\<lparr>controller_state := CONTROLLER_STARTUP,
             trace := [Called C_cm_request_queue_flush, Called C_rpt_print_system_ready_message,
                       Called (C_text_response STAT_OK (replicate 12 NUL))]\<rparr>) =
      (if SerialUSB_isConnected bench_env (world ?N)
       then CONTROLLER_STARTUP else CONTROLLER_NOT_CONNECTED)"
    by blast
  show ?thesis by (intro conjI h st con c)
qed

text \<open>
  C2 as the specification states it allows startup to go to ready only. With the
  transport not connected the poll takes startup to not-connected.
\<close>

theorem connection_transitions_counterexample:
  "command_dispatch bench_env (bench_sys CONTROLLER_STARTUP TEXT_MODE bench_unplugged) =
     Inr (STAT_OK, bench_sys CONTROLLER_NOT_CONNECTED TEXT_MODE bench_unplugged)"
  by (simp add: model_defs bench_defs)

text \<open>
  C6, as amended. A complete, non-empty line whose first character, upper-cased, is none
  of \<^verbatim>\<open>H $ ? {\<close> is read in the ready state. If the response mode is JSON and the
  line with its eleven bytes of wrapping and terminator fits the input buffer, the only
  parser called is the JSON parser, on the input buffer holding the line wrapped as
  \<^verbatim>\<open>{"gc":"<line>"}\<close> and a newline. If the response mode is not JSON, the G-code
  parser is called on the raw line and the text response is given its status and the
  saved buffer, which holds the first \<^verbatim>\<open>SAVED_BUFFER_LEN-1\<close> bytes of the line.
\<close>

theorem gcode_line_routing:
  assumes "controller_state s = CONTROLLER_READY" and "SerialUSB_isConnected env (world s)"
    and "read_line env (in_buf s) (linelen s) (length (in_buf s)) (world s) = ((STAT_OK, b, n), w)"
    and "cstr b = Some l" and "l \<noteq> []"
    and "toupper (hd l) \<notin> {CHR ''H'', CHR ''$'', CHR ''?'', CHR ''{''}"
    and "length b = INPUT_BUFFER_LEN env"
    and "length (saved_buf s) = SAVED_BUFFER_LEN env" and "0 < SAVED_BUFFER_LEN env"
    and "INPUT_BUFFER_LEN env - 8 \<le> length (out_buf s)"
  shows "(comm_mode s = JSON_MODE \<and> length l + 11 \<le> INPUT_BUFFER_LEN env \<longrightarrow>
            (\<exists>s' ib. command_dispatch env s = Inr (STAT_OK, s') \<and>
               trace s' = trace s @
                 [Called (C_read_line (in_buf s) (linelen s) (length (in_buf s))),
                  Called (C_json_parser ib)] \<and>
               cstr ib = Some (gc_wrap l) \<and> length ib = INPUT_BUFFER_LEN env \<and>
               in_buf s' = ib \<and> comm_mode s' = JSON_MODE)) \<and>
         (comm_mode s \<noteq> JSON_MODE \<longrightarrow>
            (\<exists>s'. command_dispatch env s = Inr (STAT_OK, s') \<and>
               trace s' = trace s @
                 [Called (C_read_line (in_buf s) (linelen s) (length (in_buf s))),
                  Called (C_gc_gcode_parser b),
                  Called (C_text_response (fst (gc_gcode_parser env b w)) (saved_buf s'))] \<and>
               saved_buf s' =
                 take (SAVED_BUFFER_LEN env - 1) l @
                 replicate (SAVED_BUFFER_LEN env - 1 - length l) NUL @
                 drop (SAVED_BUFFER_LEN env - 1) (saved_buf s) \<and>
               in_buf s' = b \<and> comm_mode s' = comm_mode s))"
proof -
  let ?s1 = "s\<lparr>in_buf := b, linelen := n, world := w,
               trace := trace s @ [Called (C_read_line (in_buf s) (linelen s) (length (in_buf s)))]\<rparr>"
  let ?sv = "take (SAVED_BUFFER_LEN env - 1) l @
             replicate (SAVED_BUFFER_LEN env - 1 - length l) NUL @
             drop (SAVED_BUFFER_LEN env - 1) (saved_buf s)"
  have cd: "command_dispatch env s = execute_line env ?s1"
    using command_dispatch_ready [OF assms(1-3)] by simp
  from cstr_split [OF assms(4)] obtain rest where
    b: "b = l @ NUL # rest" and nl: "NUL \<notin> set l" by blast
  from assms(5) obtain c0 l' where l: "l = c0 # l'" by (cases l) auto
  with nl have "c0 \<noteq> NUL" by auto
  then have "toupper c0 \<noteq> NUL" by (simp add: toupper_NUL)
  with assms(6) l have c0: "toupper c0 \<notin> {NUL, CHR ''H'', CHR ''$'', CHR ''?'', CHR ''{''}"
    by simp
  have ib: "in_buf ?s1 = c0 # (l' @ NUL # rest)" using b l by simp
  have sv: "strncpy (saved_buf ?s1) (in_buf ?s1) (SAVED_BUFFER_LEN env - 1) = Inr ?sv"
    using strncpy_cstr [OF assms(4), of "SAVED_BUFFER_LEN env - 1" "saved_buf s"] assms(8) by simp
  show ?thesis
  proof (intro conjI impI)
    assume j: "comm_mode s = JSON_MODE \<and> length l + 11 \<le> INPUT_BUFFER_LEN env"
    let ?n = "INPUT_BUFFER_LEN env - 8"
    define ob where "ob = take ?n l @ replicate (?n - length l) NUL @ drop ?n (out_buf s)"
    define ib' where "ib' = gc_wrap l @ NUL # drop (length l + 11) b"
    from j obtain k where k: "?n - length l = Suc k" by (cases "?n - length l") auto
    from j have tk: "take ?n l = l" by auto
    have ob: "strncpy (out_buf s) b ?n = Inr ob"
      unfolding ob_def using strncpy_cstr [OF assms(4) assms(10)] by simp
    have "cstr ob = Some l"
      unfolding ob_def tk k using cstr_append [OF nl] by simp
    then have sp: "sprintf_gc b ob = Inr ib'"
      unfolding ib'_def using j assms(7) by (simp add: sprintf_gc_cstr)
    have n8: "\<not> INPUT_BUFFER_LEN env < 8" using j by auto
    have ex: "execute_line env ?s1 =
        Inr (STAT_OK, ?s1\<lparr>saved_buf := ?sv, linelen := 0, out_buf := ob, in_buf := ib',
               world := json_parser env ib' (world ?s1),
               trace := trace ?s1 @ [Called (C_json_parser ib')]\<rparr>)"
      using j n8
      by (subst execute_line_gcode_json [OF assms(9) sv ib c0]) (simp_all add: ob sp)
    have "cstr ib' = Some (gc_wrap l)"
      unfolding ib'_def using cstr_append [OF gc_wrap_no_NUL [OF nl]] by simp
    moreover have "length ib' = INPUT_BUFFER_LEN env"
      unfolding ib'_def using j assms(7) by (simp add: gc_wrap_length)
    ultimately show "\<exists>s' ib. command_dispatch env s = Inr (STAT_OK, s') \<and>
               trace s' = trace s @
                 [Called (C_read_line (in_buf s) (linelen s) (length (in_buf s))),
                  Called (C_json_parser ib)] \<and>
               cstr ib = Some (gc_wrap l) \<and> length ib = INPUT_BUFFER_LEN env \<and>
               in_buf s' = ib \<and> comm_mode s' = JSON_MODE"
      using cd ex j by simp
  next
    assume t: "comm_mode s \<noteq> JSON_MODE"
    have "execute_line env ?s1 =
        Inr (STAT_OK,
             ?s1\<lparr>saved_buf := ?sv, linelen := 0,
               world := text_response env (fst (gc_gcode_parser env (in_buf ?s1) (world ?s1))) ?sv
                          (snd (gc_gcode_parser env (in_buf ?s1) (world ?s1))),
               trace := trace ?s1 @
                 [Called (C_gc_gcode_parser (in_buf ?s1)),
                  Called (C_text_response (fst (gc_gcode_parser env (in_buf ?s1) (world ?s1))) ?sv)]\<rparr>)"
      using t by (intro execute_line_gcode_text [OF assms(9) sv ib c0]) simp
    with cd show "\<exists>s'. command_dispatch env s = Inr (STAT_OK, s') \<and>
               trace s' = trace s @
                 [Called (C_read_line (in_buf s) (linelen s) (length (in_buf s))),
                  Called (C_gc_gcode_parser b),
                  Called (C_text_response (fst (gc_gcode_parser env b w)) (saved_buf s'))] \<and>
               saved_buf s' = ?sv \<and> in_buf s' = b \<and> comm_mode s' = comm_mode s"
      by simp
  qed
qed

text \<open>
  On the test bench: the line \<^verbatim>\<open>g1f400x100\<close> in JSON mode and in text mode.
\<close>

theorem gcode_line_routing_witness:
  "controller_state (bench_gcode JSON_MODE) = CONTROLLER_READY \<and>
   SerialUSB_isConnected bench_env (world (bench_gcode JSON_MODE)) \<and>
   read_line bench_env (in_buf (bench_gcode JSON_MODE)) (linelen (bench_gcode JSON_MODE))
     (length (in_buf (bench_gcode JSON_MODE))) (world (bench_gcode JSON_MODE)) =
     ((STAT_OK, ''g1f400x100'' @ replicate 14 NUL, 10), bench_idle) \<and>
   controller_state (bench_gcode TEXT_MODE) = CONTROLLER_READY \<and>
   SerialUSB_isConnected bench_env (world (bench_gcode TEXT_MODE)) \<and>
   read_line bench_env (in_buf (bench_gcode TEXT_MODE)) (linelen (bench_gcode TEXT_MODE))
     (length (in_buf (bench_gcode TEXT_MODE))) (world (bench_gcode TEXT_MODE)) =
     ((STAT_OK, ''g1f400x100'' @ replicate 14 NUL, 10), bench_idle) \<and>
   cstr (''g1f400x100'' @ replicate 14 NUL) = Some ''g1f400x100'' \<and>
   ''g1f400x100'' \<noteq> [] \<and>
   toupper (hd ''g1f400x100'') \<notin> {CHR ''H'', CHR ''$'', CHR ''?'', CHR ''{''} \<and>
   length (''g1f400x100'' @ replicate 14 NUL) = INPUT_BUFFER_LEN bench_env \<and>
   length (saved_buf (bench_gcode JSON_MODE)) = SAVED_BUFFER_LEN bench_env \<and>
   length (saved_buf (bench_gcode TEXT_MODE)) = SAVED_BUFFER_LEN bench_env \<and>
   0 < SAVED_BUFFER_LEN bench_env \<and>
   INPUT_BUFFER_LEN bench_env - 8 \<le> length (out_buf (bench_gcode JSON_MODE)) \<and>
   INPUT_BUFFER_LEN bench_env - 8 \<le> length (out_buf (bench_gcode TEXT_MODE)) \<and>
   comm_mode (bench_gcode JSON_MODE) = JSON_MODE \<and>
   length ''g1f400x100'' + 11 \<le> INPUT_BUFFER_LEN bench_env \<and>
   comm_mode (bench_gcode TEXT_MODE) \<noteq> JSON_MODE \<and>
   (\<exists>s' ib. command_dispatch bench_env (bench_gcode JSON_MODE) = Inr (STAT_OK, s') \<and>
      trace s' =
        trace (bench_gcode JSON_MODE) @
        [Called (C_read_line (in_buf (bench_gcode JSON_MODE)) (linelen (bench_gcode JSON_MODE))
           (length (in_buf (bench_gcode JSON_MODE)))),
         Called (C_json_parser ib)] \<and>
      cstr ib = Some (gc_wrap ''g1f400x100'') \<and> length ib = INPUT_BUFFER_LEN bench_env \<and>
      in_buf s' = ib \<and> comm_mode s' = JSON_MODE) \<and>
   gc_wrap ''g1f400x100'' =
     [CHR ''{'', CHR 0x22] @ ''gc'' @ [CHR 0x22, CHR '':'', CHR 0x22] @ ''g1f400x100'' @
     [CHR 0x22, CHR ''}'', CHR 0x0A] \<and>
   (\<exists>s'. command_dispatch bench_env (bench_gcode TEXT_MODE) = Inr (STAT_OK, s') \<and>
      trace s' =
        trace (bench_gcode TEXT_MODE) @
        [Called (C_read_line (in_buf (bench_gcode TEXT_MODE)) (linelen (bench_gcode TEXT_MODE))
           (length (in_buf (bench_gcode TEXT_MODE)))),
         Called (C_gc_gcode_parser (''g1f400x100'' @ replicate 14 NUL)),
         Called (C_text_response
           (fst (gc_gcode_parser bench_env (''g1f400x100'' @ replicate 14 NUL) bench_idle))
           (saved_buf s'))] \<and>
      saved_buf s' =
        take (SAVED_BUFFER_LEN bench_env - 1) ''g1f400x100'' @
        replicate (SAVED_BUFFER_LEN bench_env - 1 - length ''g1f400x100'') NUL @
        drop (SAVED_BUFFER_LEN bench_env - 1) (saved_buf (bench_gcode TEXT_MODE)) \<and>
      in_buf s' = ''g1f400x100'' @ replicate 14 NUL \<and>
      comm_mode s' = comm_mode (bench_gcode TEXT_MODE))"
proof -
  let ?b = "''g1f400x100'' @ replicate 14 NUL"
  have h1: "controller_state (bench_gcode m) = CONTROLLER_READY" for m
    by (simp add: bench_defs)
  have h2: "SerialUSB_isConnected bench_env (world (bench_gcode m))" for m
    by (simp add: bench_defs)
  have h3: "read_line bench_env (in_buf (bench_gcode m)) (linelen (bench_gcode m))
      (length (in_buf (bench_gcode m))) (world (bench_gcode m)) = ((STAT_OK, ?b, 10), bench_idle)"
    for m by (simp add: bench_defs)
  have h4: "cstr ?b = Some ''g1f400x100''" by (simp add: cstr_def replicate_numeral_unfold)
  have h5: "''g1f400x100'' \<noteq> []" by simp
  have h6: "toupper (hd ''g1f400x100'') \<notin> {CHR ''H'', CHR ''$'', CHR ''?'', CHR ''{''}"
    by (simp add: toupper_def char_of_def bit_Suc_0_iff)
  have h7: "length ?b = INPUT_BUFFER_LEN bench_env" by (simp add: bench_defs)
  have h8: "length (saved_buf (bench_gcode m)) = SAVED_BUFFER_LEN bench_env" for m
    by (simp add: bench_defs)
  have h9: "0 < SAVED_BUFFER_LEN bench_env" by (simp add: bench_defs)
  have h10: "INPUT_BUFFER_LEN bench_env - 8 \<le> length (out_buf (bench_gcode m))" for m
    by (simp add: bench_defs)
  have j1: "comm_mode (bench_gcode JSON_MODE) = JSON_MODE" by (simp add: bench_defs)
  have j2: "length ''g1f400x100'' + 11 \<le> INPUT_BUFFER_LEN bench_env" by (simp add: bench_defs)
  have t1: "comm_mode (bench_gcode TEXT_MODE) \<noteq> JSON_MODE" by (simp add: bench_defs)
  from gcode_line_routing [OF h1 h2 h3 h4 h5 h6 h7 h8 h9 h10, of JSON_MODE] j1 j2
  have c: "\<exists>s' ib. command_dispatch bench_env (bench_gcode JSON_MODE) = Inr (STAT_OK, s') \<and>
      trace s' = trace (bench_gcode JSON_MODE) @
        [Called (C_read_line (in_buf (bench_gcode JSON_MODE)) (linelen (bench_gcode JSON_MODE))
           (length (in_buf (bench_gcode JSON_MODE)))),
         Called (C_json_parser ib)] \<and>
      cstr ib = Some (gc_wrap ''g1f400x100'') \<and> length ib = INPUT_BUFFER_LEN bench_env \<and>
      in_buf s' = ib \<and> comm_mode s' = JSON_MODE"
    by blast
  have g: "gc_wrap ''g1f400x100'' =
     [CHR ''{'', CHR 0x22] @ ''gc'' @ [CHR 0x22, CHR '':'', CHR 0x22] @ ''g1f400x100'' @
     [CHR 0x22, CHR ''}'', CHR 0x0A]"
    by (simp add: gc_wrap_def gc_prefix_def gc_suffix_def)
  from gcode_line_routing [OF h1 h2 h3 h4 h5 h6 h7 h8 h9 h10, of TEXT_MODE] t1
  have d: "\<exists>s'. command_dispatch bench_env (bench_gcode TEXT_MODE) = Inr (STAT_OK, s') \<and>
      trace s' =
        trace (bench_gcode TEXT_MODE) @
        [Called (C_read_line (in_buf (bench_gcode TEXT_MODE)) (linelen (bench_gcode TEXT_MODE))
           (length (in_buf (bench_gcode TEXT_MODE)))),
         Called (C_gc_gcode_parser ?b),
         Called (C_text_response (fst (gc_gcode_parser bench_env ?b bench_idle)) (saved_buf s'))] \<and>
      saved_buf s' =
        take (SAVED_BUFFER_LEN bench_env - 1) ''g1f400x100'' @
        replicate (SAVED_BUFFER_LEN bench_env - 1 - length ''g1f400x100'') NUL @
        drop (SAVED_BUFFER_LEN bench_env - 1) (saved_buf (bench_gcode TEXT_MODE)) \<and>
      in_buf s' = ?b \<and> comm_mode s' = comm_mode (bench_gcode TEXT_MODE)"
    by blast
  show ?thesis by (intro conjI h1 h2 h3 h4 h5 h6 h7 h8 h9 h10 j1 j2 t1 c g d)
qed

text \<open>
  C6 as the specification states it speaks of every line. A line of 20 characters in
  the 24-byte input buffer is not handed to the JSON parser: the dispatch runs past the
  end of the buffer.
\<close>

theorem gcode_line_routing_counterexample:
  "command_dispatch bench_env
     (bench_sys CONTROLLER_READY JSON_MODE (bench_line ''g1x100y200z300f40000'')) =
   Inl BufferOverrun"
  by (simp add: model_defs bench_defs)

text \<open>
  C4. The reserve of eight bytes is too small: the wrapping adds ten characters and a
  terminating NUL. A motion-command line of \<open>L\<close> characters with
  \<open>L + 11 > \<close> \<^verbatim>\<open>INPUT_BUFFER_LEN\<close>, dispatched in JSON mode, makes the dispatcher
  run off the end of an array. For \<open>L < \<close> \<^verbatim>\<open>INPUT_BUFFER_LEN\<close> \<open>- 8\<close> the line
  is copied whole and \<^verbatim>\<open>sprintf\<close> writes \<open>L + 11\<close> bytes into the input
  buffer, past its end. For longer lines \<^verbatim>\<open>strncpy\<close> copies
  \<^verbatim>\<open>INPUT_BUFFER_LEN\<close> \<open>- 8\<close> bytes and no terminator, and \<^verbatim>\<open>sprintf\<close> reads
  on through the output buffer: it writes past the end of the input buffer, or, when
  the rest of the output buffer holds no NUL, reads past the end of the output buffer.
\<close>

theorem json_wrap_overruns:
  assumes "controller_state s = CONTROLLER_READY" and "SerialUSB_isConnected env (world s)"
    and "read_line env (in_buf s) (linelen s) (length (in_buf s)) (world s) = ((STAT_OK, b, n), w)"
    and "cstr b = Some l" and "l \<noteq> []"
    and "toupper (hd l) \<notin> {CHR ''H'', CHR ''$'', CHR ''?'', CHR ''{''}"
    and "length b = INPUT_BUFFER_LEN env"
    and "length (saved_buf s) = SAVED_BUFFER_LEN env" and "0 < SAVED_BUFFER_LEN env"
    and "comm_mode s = JSON_MODE"
    and "INPUT_BUFFER_LEN env < length l + 11"
  shows "command_dispatch env s = Inl BufferOverrun \<or>
         (INPUT_BUFFER_LEN env \<le> length l + 8 \<and>
          NUL \<notin> set (drop (INPUT_BUFFER_LEN env - 8) (out_buf s)) \<and>
          command_dispatch env s = Inl BufferOverread)"
proof -
  let ?s1 = "s\<lparr>in_buf := b, linelen := n, world := w,
               trace := trace s @ [Called (C_read_line (in_buf s) (linelen s) (length (in_buf s)))]\<rparr>"
  let ?m = "SAVED_BUFFER_LEN env - 1"
  let ?sv = "take ?m l @ replicate (?m - length l) NUL @ drop ?m (saved_buf s)"
  let ?n = "INPUT_BUFFER_LEN env - 8"
  have cd: "command_dispatch env s = execute_line env ?s1"
    using command_dispatch_ready [OF assms(1-3)] by simp
  from cstr_split [OF assms(4)] obtain rest where
    b: "b = l @ NUL # rest" and nl: "NUL \<notin> set l" by blast
  from assms(5) obtain c0 l' where l: "l = c0 # l'" by (cases l) auto
  with nl have "c0 \<noteq> NUL" by auto
  then have "toupper c0 \<noteq> NUL" by (simp add: toupper_NUL)
  with assms(6) l have c0: "toupper c0 \<notin> {NUL, CHR ''H'', CHR ''$'', CHR ''?'', CHR ''{''}"
    by simp
  have ib: "in_buf ?s1 = c0 # (l' @ NUL # rest)" using b l by simp
  have sv: "strncpy (saved_buf ?s1) (in_buf ?s1) ?m = Inr ?sv"
    using strncpy_cstr [OF assms(4), of ?m "saved_buf s"] assms(8) by simp
  have cm: "comm_mode ?s1 = JSON_MODE" using assms(10) by simp
  note ex = execute_line_gcode_json [OF assms(9) sv ib c0 cm]
  show ?thesis
  proof (cases "INPUT_BUFFER_LEN env < 8 \<or> length (out_buf s) < ?n")
    case True
    then have "execute_line env ?s1 = Inl BufferOverrun"
      by (auto simp: ex strncpy_def Let_def)
    with cd show ?thesis by simp
  next
    case False
    then have n8: "\<not> INPUT_BUFFER_LEN env < 8" and fits: "?n \<le> length (out_buf s)" by auto
    define ob where "ob = take ?n l @ replicate (?n - length l) NUL @ drop ?n (out_buf s)"
    have ob: "strncpy (out_buf s) b ?n = Inr ob"
      unfolding ob_def by (rule strncpy_cstr [OF assms(4) fits])
    show ?thesis
    proof (cases "cstr ob")
      case None
      then have nn: "NUL \<notin> set ob" by (auto simp: cstr_def split: if_splits)
      then have "?n - length l = 0" unfolding ob_def by (cases "?n - length l") auto
      moreover from nn have "NUL \<notin> set (drop ?n (out_buf s))" unfolding ob_def by simp
      moreover have "execute_line env ?s1 = Inl BufferOverread"
        using n8 ob None by (simp add: ex sprintf_gc_def)
      ultimately show ?thesis using cd n8 by auto
    next
      case (Some x)
      have "length b < length x + 11"
      proof (cases "length l < ?n")
        case True
        then obtain k where k: "?n - length l = Suc k" by (cases "?n - length l") auto
        from True have "take ?n l = l" by simp
        then have "cstr ob = Some l" unfolding ob_def k using cstr_append [OF nl] by simp
        with Some have "x = l" by simp
        with assms(7,11) show ?thesis by simp
      next
        case False
        have "NUL \<notin> set (take ?n l)" using nl by (auto dest: in_set_takeD)
        from cstr_prefix_length [OF Some [unfolded ob_def] this] False
        have "?n \<le> length x" by simp
        with n8 assms(7) show ?thesis by simp
      qed
      then have "sprintf_gc b ob = Inl BufferOverrun"
        using Some by (simp add: sprintf_gc_cstr)
      then have "execute_line env ?s1 = Inl BufferOverrun"
        using n8 ob by (simp add: ex)
      with cd show ?thesis by simp
    qed
  qed
qed

text \<open>
  On the test bench the input buffer has 24 bytes; a line of 14 characters is wrapped
  into 25.
\<close>

theorem json_wrap_overruns_witness:
  "controller_state (bench_sys CONTROLLER_READY JSON_MODE (bench_line ''g0x1y2z3f40000'')) =
     CONTROLLER_READY \<and>
   SerialUSB_isConnected bench_env
     (world (bench_sys CONTROLLER_READY JSON_MODE (bench_line ''g0x1y2z3f40000''))) \<and>
   read_line bench_env
     (in_buf (bench_sys CONTROLLER_READY JSON_MODE (bench_line ''g0x1y2z3f40000'')))
     (linelen (bench_sys CONTROLLER_READY JSON_MODE (bench_line ''g0x1y2z3f40000'')))
     (length (in_buf (bench_sys CONTROLLER_READY JSON_MODE (bench_line ''g0x1y2z3f40000''))))
     (world (bench_sys CONTROLLER_READY JSON_MODE (bench_line ''g0x1y2z3f40000''))) =
     ((STAT_OK, ''g0x1y2z3f40000'' @ replicate 10 NUL, 14), bench_idle) \<and>
   cstr (''g0x1y2z3f40000'' @ replicate 10 NUL) = Some ''g0x1y2z3f40000'' \<and>
   ''g0x1y2z3f40000'' \<noteq> [] \<and>
   toupper (hd ''g0x1y2z3f40000'') \<notin> {CHR ''H'', CHR ''$'', CHR ''?'', CHR ''{''} \<and>
   length (''g0x1y2z3f40000'' @ replicate 10 NUL) = INPUT_BUFFER_LEN bench_env \<and>
   length (saved_buf (bench_sys CONTROLLER_READY JSON_MODE (bench_line ''g0x1y2z3f40000''))) =
     SAVED_BUFFER_LEN bench_env \<and>
   0 < SAVED_BUFFER_LEN bench_env \<and>
   comm_mode (bench_sys CONTROLLER_READY JSON_MODE (bench_line ''g0x1y2z3f40000'')) = JSON_MODE \<and>
   INPUT_BUFFER_LEN bench_env < length ''g0x1y2z3f40000'' + 11 \<and>
   NUL \<in> set (drop (INPUT_BUFFER_LEN bench_env - 8)
                (out_buf (bench_sys CONTROLLER_READY JSON_MODE (bench_line ''g0x1y2z3f40000'')))) \<and>
   command_dispatch bench_env
     (bench_sys CONTROLLER_READY JSON_MODE (bench_line ''g0x1y2z3f40000'')) =
   Inl BufferOverrun"
proof -
  let ?O = "bench_sys CONTROLLER_READY JSON_MODE (bench_line ''g0x1y2z3f40000'')"
  let ?b = "''g0x1y2z3f40000'' @ replicate 10 NUL"
  have h1: "controller_state ?O = CONTROLLER_READY" by (simp add: bench_defs)
  have h2: "SerialUSB_isConnected bench_env (world ?O)" by (simp add: bench_defs)
  have h3: "read_line bench_env (in_buf ?O) (linelen ?O) (length (in_buf ?O)) (world ?O) =
      ((STAT_OK, ?b, 14), bench_idle)" by (simp add: bench_defs)
  have h4: "cstr ?b = Some ''g0x1y2z3f40000''" by (simp add: cstr_def replicate_numeral_unfold)
  have h5: "''g0x1y2z3f40000'' \<noteq> []" by simp
  have h6: "toupper (hd ''g0x1y2z3f40000'') \<notin> {CHR ''H'', CHR ''$'', CHR ''?'', CHR ''{''}"
    by (simp add: toupper_def char_of_def bit_Suc_0_iff)
  have h7: "length ?b = INPUT_BUFFER_LEN bench_env" by (simp add: bench_defs)
  have h8: "length (saved_buf ?O) = SAVED_BUFFER_LEN bench_env" by (simp add: bench_defs)
  have h9: "0 < SAVED_BUFFER_LEN bench_env" by (simp add: bench_defs)
  have h10: "comm_mode ?O = JSON_MODE" by (simp add: bench_defs)
  have h11: "INPUT_BUFFER_LEN bench_env < length ''g0x1y2z3f40000'' + 11" by (simp add: bench_defs)
  have nul: "NUL \<in> set (drop (INPUT_BUFFER_LEN bench_env - 8) (out_buf ?O))"
    by (simp add: bench_defs)
  from json_wrap_overruns [OF h1 h2 h3 h4 h5 h6 h7 h8 h9 h10 h11] nul
  have c: "command_dispatch bench_env ?O = Inl BufferOverrun" by blast
  show ?thesis by (intro conjI h1 h2 h3 h4 h5 h6 h7 h8 h9 h10 h11 nul c)
qed

text \<open>
  C9. An empty line read in the ready state with a response mode other than JSON is
  answered by one text response with status \<^verbatim>\<open>STAT_OK\<close> and the saved buffer, which
  holds the empty string, and the cursor is zero afterwards. A second empty line is
  then read with the cursor at zero and answered in the same way.
\<close>

theorem empty_line_echo_twice:
  assumes "controller_state s = CONTROLLER_READY" and "SerialUSB_isConnected env (world s)"
    and "read_line env (in_buf s) (linelen s) (length (in_buf s)) (world s) = ((STAT_OK, b, n), w)"
    and "cstr b = Some []"
    and "comm_mode s \<noteq> JSON_MODE"
    and "length (saved_buf s) = SAVED_BUFFER_LEN env" and "2 \<le> SAVED_BUFFER_LEN env"
  shows "\<exists>s1 sv. command_dispatch env s = Inr (STAT_OK, s1) \<and>
           trace s1 = trace s @
             [Called (C_read_line (in_buf s) (linelen s) (length (in_buf s))),
              Called (C_text_response STAT_OK sv)] \<and>
           cstr sv = Some [] \<and> linelen s1 = 0 \<and>
           (\<forall>b2 n2 w2.
              SerialUSB_isConnected env (world s1) \<and>
              read_line env b 0 (length b) (world s1) = ((STAT_OK, b2, n2), w2) \<and>
              cstr b2 = Some [] \<longrightarrow>
              (\<exists>s2 sv2. command_dispatch env s1 = Inr (STAT_OK, s2) \<and>
                 trace s2 = trace s @
                   [Called (C_read_line (in_buf s) (linelen s) (length (in_buf s))),
                    Called (C_text_response STAT_OK sv),
                    Called (C_read_line b 0 (length b)),
                    Called (C_text_response STAT_OK sv2)] \<and>
                 cstr sv2 = Some [] \<and> linelen s2 = 0))"
proof -
  from empty_line_dispatch [OF assms] obtain s1 where
    s1: "command_dispatch env s = Inr (STAT_OK, s1)"
      "trace s1 = trace s @
         [Called (C_read_line (in_buf s) (linelen s) (length (in_buf s))),
          Called (C_text_response STAT_OK (saved_buf s1))]"
      "cstr (saved_buf s1) = Some []" "length (saved_buf s1) = SAVED_BUFFER_LEN env"
      "linelen s1 = 0" "in_buf s1 = b"
      "controller_state s1 = CONTROLLER_READY" "comm_mode s1 = comm_mode s"
    by blast
  have second: "\<exists>s2 sv2. command_dispatch env s1 = Inr (STAT_OK, s2) \<and>
                 trace s2 = trace s @
                   [Called (C_read_line (in_buf s) (linelen s) (length (in_buf s))),
                    Called (C_text_response STAT_OK (saved_buf s1)),
                    Called (C_read_line b 0 (length b)),
                    Called (C_text_response STAT_OK sv2)] \<and>
                 cstr sv2 = Some [] \<and> linelen s2 = 0"
    if h: "SerialUSB_isConnected env (world s1) \<and>
           read_line env b 0 (length b) (world s1) = ((STAT_OK, b2, n2), w2) \<and>
           cstr b2 = Some []" for b2 n2 w2
  proof -
    from h s1 have rl: "read_line env (in_buf s1) (linelen s1) (length (in_buf s1)) (world s1) =
        ((STAT_OK, b2, n2), w2)" by simp
    from h have con: "SerialUSB_isConnected env (world s1)" and e2: "cstr b2 = Some []" by simp_all
    from assms(5) s1 have m: "comm_mode s1 \<noteq> JSON_MODE" by simp
    from empty_line_dispatch [OF s1(7) con rl e2 m s1(4) assms(7)] s1
    show ?thesis by auto
  qed
  from s1 second show ?thesis by blast
qed

text \<open>On the test bench: two empty lines wait at the transport.\<close>

theorem empty_line_echo_twice_witness:
  "controller_state bench_empty_lines = CONTROLLER_READY \<and>
   SerialUSB_isConnected bench_env (world bench_empty_lines) \<and>
   read_line bench_env (in_buf bench_empty_lines) (linelen bench_empty_lines)
     (length (in_buf bench_empty_lines)) (world bench_empty_lines) =
     ((STAT_OK, replicate 24 NUL, 0), bench_idle\<lparr>bench_rx := [[]]\<rparr>) \<and>
   cstr (replicate 24 NUL) = Some [] \<and>
   comm_mode bench_empty_lines \<noteq> JSON_MODE \<and>
   length (saved_buf bench_empty_lines) = SAVED_BUFFER_LEN bench_env \<and>
   2 \<le> SAVED_BUFFER_LEN bench_env \<and>
   command_dispatch bench_env bench_empty_lines = Inr (STAT_OK, bench_empty_lines_after) \<and>
   SerialUSB_isConnected bench_env (world bench_empty_lines_after) \<and>
   read_line bench_env (replicate 24 NUL) 0 (length (replicate 24 NUL :: buf))
     (world bench_empty_lines_after) = ((STAT_OK, replicate 24 NUL, 0), bench_idle) \<and>
   (\<exists>s2 sv sv2. command_dispatch bench_env bench_empty_lines_after = Inr (STAT_OK, s2) \<and>
      trace s2 = trace bench_empty_lines @
        [Called (C_read_line (in_buf bench_empty_lines) (linelen bench_empty_lines)
           (length (in_buf bench_empty_lines))),
         Called (C_text_response STAT_OK sv),
         Called (C_read_line (replicate 24 NUL) 0 (length (replicate 24 NUL :: buf))),
         Called (C_text_response STAT_OK sv2)] \<and>
      cstr sv = Some [] \<and> cstr sv2 = Some [] \<and>
      linelen bench_empty_lines_after = 0 \<and> linelen s2 = 0)"
proof -
  let ?b = "replicate 24 NUL :: buf"
  have h1: "controller_state bench_empty_lines = CONTROLLER_READY" by (simp add: bench_defs)
  have h2: "SerialUSB_isConnected bench_env (world bench_empty_lines)" by (simp add: bench_defs)
  have h3: "read_line bench_env (in_buf bench_empty_lines) (linelen bench_empty_lines)
      (length (in_buf bench_empty_lines)) (world bench_empty_lines) =
      ((STAT_OK, ?b, 0), bench_idle\<lparr>bench_rx := [[]]\<rparr>)" by (simp add: bench_defs)
  have h4: "cstr ?b = Some []" by (simp add: cstr_def replicate_numeral_unfold)
  have h5: "comm_mode bench_empty_lines \<noteq> JSON_MODE" by (simp add: bench_defs)
  have h6: "length (saved_buf bench_empty_lines) = SAVED_BUFFER_LEN bench_env"
    by (simp add: bench_defs)
  have h7: "2 \<le> SAVED_BUFFER_LEN bench_env" by (simp add: bench_defs)
  have r1: "command_dispatch bench_env bench_empty_lines = Inr (STAT_OK, bench_empty_lines_after)"
    by (simp add: model_defs bench_defs)
  have k1: "SerialUSB_isConnected bench_env (world bench_empty_lines_after)"
    by (simp add: bench_defs)
  have k2: "read_line bench_env ?b 0 (length ?b) (world bench_empty_lines_after) =
      ((STAT_OK, ?b, 0), bench_idle)" by (simp add: bench_defs)
  from empty_line_echo_twice [OF h1 h2 h3 h4 h5 h6 h7] obtain s1 sv where
    s1: "command_dispatch bench_env bench_empty_lines = Inr (STAT_OK, s1)"
      "cstr sv = Some []" "linelen s1 = 0"
    and nxt: "\<forall>b2 n2 w2.
        SerialUSB_isConnected bench_env (world s1) \<and>
        read_line bench_env ?b 0 (length ?b) (world s1) = ((STAT_OK, b2, n2), w2) \<and>
        cstr b2 = Some [] \<longrightarrow>
        (\<exists>s2 sv2. command_dispatch bench_env s1 = Inr (STAT_OK, s2) \<and>
           trace s2 = trace bench_empty_lines @
             [Called (C_read_line (in_buf bench_empty_lines) (linelen bench_empty_lines)
                (length (in_buf bench_empty_lines))),
              Called (C_text_response STAT_OK sv),
              Called (C_read_line ?b 0 (length ?b)),
              Called (C_text_response STAT_OK sv2)] \<and>
           cstr sv2 = Some [] \<and> linelen s2 = 0)"
    by blast
  from s1(1) r1 have eq: "s1 = bench_empty_lines_after" by simp
  from nxt k1 k2 h4 s1(2,3) have c: "\<exists>s2 sv sv2.
      command_dispatch bench_env bench_empty_lines_after = Inr (STAT_OK, s2) \<and>
      trace s2 = trace bench_empty_lines @
        [Called (C_read_line (in_buf bench_empty_lines) (linelen bench_empty_lines)
           (length (in_buf bench_empty_lines))),
         Called (C_text_response STAT_OK sv),
         Called (C_read_line ?b 0 (length ?b)),
         Called (C_text_response STAT_OK sv2)] \<and>
      cstr sv = Some [] \<and> cstr sv2 = Some [] \<and>
      linelen bench_empty_lines_after = 0 \<and> linelen s2 = 0"
    unfolding eq by blast
  show ?thesis by (intro conjI h1 h2 h3 h4 h5 h6 h7 r1 k1 k2 c)
qed

text \<open>
  C10. On the poll that goes from not-connected to startup and on the poll that goes
  from startup to ready the dispatcher does not return after the transition and reads
  no line: it copies the input buffer as it stands into the saved buffer, clears the
  cursor and calls the handler selected by the first byte of that buffer.
\<close>

theorem connect_polls_fall_through:
  assumes "SerialUSB_isConnected env (world s)"
    and "controller_state s = CONTROLLER_NOT_CONNECTED \<or> controller_state s = CONTROLLER_STARTUP"
    and "command_dispatch env s = Inr (r, s')"
  shows "controller_state s' =
           (if controller_state s = CONTROLLER_NOT_CONNECTED
            then CONTROLLER_STARTUP else CONTROLLER_READY) \<and>
         strncpy (saved_buf s) (in_buf s) (SAVED_BUFFER_LEN env - 1) = Inr (saved_buf s') \<and>
         linelen s' = 0 \<and>
         trace s' = trace s @
           (if controller_state s = CONTROLLER_NOT_CONNECTED
            then [Called C_cm_request_queue_flush, Called C_rpt_print_system_ready_message]
            else []) @
           (if toupper (hd (in_buf s)) = NUL then
              (if comm_mode s \<noteq> JSON_MODE
               then [Called (C_text_response STAT_OK (saved_buf s'))] else [])
            else if toupper (hd (in_buf s)) = CHR ''H'' then
              [Called C_help_general, Called (C_text_response STAT_OK (in_buf s))]
            else if toupper (hd (in_buf s)) = CHR ''$'' \<or> toupper (hd (in_buf s)) = CHR ''?'' then
              [Called (C_text_parser (in_buf s)),
               Called (C_text_response
                 (fst (text_parser env (in_buf s)
                    (if controller_state s = CONTROLLER_NOT_CONNECTED
                     then rpt_print_system_ready_message env (cm_request_queue_flush env (world s))
                     else world s)))
                 (saved_buf s'))]
            else if toupper (hd (in_buf s)) = CHR ''{'' then [Called (C_json_parser (in_buf s))]
            else if comm_mode s = JSON_MODE then [Called (C_json_parser (in_buf s'))]
            else [Called (C_gc_gcode_parser (in_buf s)),
                  Called (C_text_response
                    (fst (gc_gcode_parser env (in_buf s)
                       (if controller_state s = CONTROLLER_NOT_CONNECTED
                        then rpt_print_system_ready_message env (cm_request_queue_flush env (world s))
                        else world s)))
                    (saved_buf s'))])"
proof (cases "controller_state s = CONTROLLER_NOT_CONNECTED")
  case True
  let ?s0 = "s\<lparr>world := rpt_print_system_ready_message env (cm_request_queue_flush env (world s)),
                trace := trace s @ [Called C_cm_request_queue_flush,
                                    Called C_rpt_print_system_ready_message],
                controller_state := CONTROLLER_STARTUP\<rparr>"
  from command_dispatch_connect [OF True assms(1)] assms(3)
  have ex: "execute_line env ?s0 = Inr (r, s')" by simp
  from execute_line_result [OF ex] execute_line_handlers [OF ex] True
  show ?thesis by simp
next
  case False
  with assms(2) have st: "controller_state s = CONTROLLER_STARTUP" by simp
  let ?s0 = "s\<lparr>controller_state := CONTROLLER_READY\<rparr>"
  from command_dispatch_startup [OF st assms(1)] assms(3)
  have ex: "execute_line env ?s0 = Inr (r, s')" by simp
  from execute_line_result [OF ex] execute_line_handlers [OF ex] st
  show ?thesis by simp
qed

text \<open>
  On the test bench: the startup poll with the line \<^verbatim>\<open>g0x1\<close> left in the input
  buffer hands that line to the G-code parser.
\<close>

theorem connect_polls_fall_through_witness:
  "SerialUSB_isConnected bench_env (world bench_stale) \<and>
   (controller_state bench_stale = CONTROLLER_NOT_CONNECTED \<or>
    controller_state bench_stale = CONTROLLER_STARTUP) \<and>
   command_dispatch bench_env bench_stale = Inr (STAT_OK, bench_stale_after) \<and>
   in_buf bench_stale = ''g0x1'' @ replicate 20 NUL \<and>
   trace bench_stale = [] \<and>
   trace bench_stale_after =
     [Called (C_gc_gcode_parser (''g0x1'' @ replicate 20 NUL)),
      Called (C_text_response STAT_OK (''g0x1'' @ replicate 8 NUL))] \<and>
   (controller_state bench_stale_after =
      (if controller_state bench_stale = CONTROLLER_NOT_CONNECTED
       then CONTROLLER_STARTUP else CONTROLLER_READY) \<and>
    strncpy (saved_buf bench_stale) (in_buf bench_stale) (SAVED_BUFFER_LEN bench_env - 1) =
      Inr (saved_buf bench_stale_after) \<and>
    linelen bench_stale_after = 0 \<and>
    trace bench_stale_after = trace bench_stale @
      (if controller_state bench_stale = CONTROLLER_NOT_CONNECTED
       then [Called C_cm_request_queue_flush, Called C_rpt_print_system_ready_message]
       else []) @
      (if toupper (hd (in_buf bench_stale)) = NUL then
         (if comm_mode bench_stale \<noteq> JSON_MODE
          then [Called (C_text_response STAT_OK (saved_buf bench_stale_after))] else [])
       else if toupper (hd (in_buf bench_stale)) = CHR ''H'' then
         [Called C_help_general, Called (C_text_response STAT_OK (in_buf bench_stale))]
       else if toupper (hd (in_buf bench_stale)) = CHR ''$'' \<or>
               toupper (hd (in_buf bench_stale)) = CHR ''?'' then
         [Called (C_text_parser (in_buf bench_stale)),
          Called (C_text_response
            (fst (text_parser bench_env (in_buf bench_stale)
               (if controller_state bench_stale = CONTROLLER_NOT_CONNECTED
                then rpt_print_system_ready_message bench_env
                       (cm_request_queue_flush bench_env (world bench_stale))
                else world bench_stale)))
            (saved_buf bench_stale_after))]
       else if toupper (hd (in_buf bench_stale)) = CHR ''{'' then
         [Called (C_json_parser (in_buf bench_stale))]
       else if comm_mode bench_stale = JSON_MODE then
         [Called (C_json_parser (in_buf bench_stale_after))]
       else [Called (C_gc_gcode_parser (in_buf bench_stale)),
             Called (C_text_response
               (fst (gc_gcode_parser bench_env (in_buf bench_stale)
                  (if controller_state bench_stale = CONTROLLER_NOT_CONNECTED
                   then rpt_print_system_ready_message bench_env
                          (cm_request_queue_flush bench_env (world bench_stale))
                   else world bench_stale)))
               (saved_buf bench_stale_after))]))"
proof -
  have h1: "SerialUSB_isConnected bench_env (world bench_stale)" by (simp add: bench_defs)
  have h2: "controller_state bench_stale = CONTROLLER_NOT_CONNECTED \<or>
    controller_state bench_stale = CONTROLLER_STARTUP" by (simp add: bench_defs)
  have h3: "command_dispatch bench_env bench_stale = Inr (STAT_OK, bench_stale_after)"
    by (simp add: model_defs bench_defs)
  have e1: "in_buf bench_stale = ''g0x1'' @ replicate 20 NUL" by (simp add: bench_defs)
  have e2: "trace bench_stale = []" by (simp add: bench_defs)
  have e3: "trace bench_stale_after =
     [Called (C_gc_gcode_parser (''g0x1'' @ replicate 20 NUL)),
      Called (C_text_response STAT_OK (''g0x1'' @ replicate 8 NUL))]" by (simp add: bench_defs)
  show ?thesis
    by (intro conjI h1 h2 h3 e1 e2 e3 connect_polls_fall_through [OF h1 h2 h3, THEN conjunct1]
        connect_polls_fall_through [OF h1 h2 h3, THEN conjunct2, THEN conjunct1]
        connect_polls_fall_through [OF h1 h2 h3, THEN conjunct2, THEN conjunct2, THEN conjunct1]
        connect_polls_fall_through [OF h1 h2 h3, THEN conjunct2, THEN conjunct2, THEN conjunct2])
qed

end
